theory Spec2Isabelle
  imports Main "HOL-Library.AList"
begin

section \<open>JavaScript strings\<close>

text \<open>
  A JavaScript string is a sequence of UTF-16 code units; a code unit is modelled by its
  number. \<open>str\<close> turns an ASCII literal of this theory into such a sequence.
\<close>

type_synonym jsstring = "nat list"

definition str :: "string \<Rightarrow> jsstring" where
  "str cs = map of_char cs"

text \<open>
  White space as ECMAScript defines it for \<open>String.prototype.trim\<close> and for the
  class \<open>\s\<close>: TAB, LF, VT, FF, CR, SPACE, NBSP, U+1680, U+2000 to U+200A, U+2028, U+2029,
  U+202F, U+205F, U+3000 and U+FEFF. \<open>\d\<close> is the ten ASCII digits.
\<close>

definition is_space :: "nat \<Rightarrow> bool" where
  "is_space u \<longleftrightarrow>
     u \<in> {9, 10, 11, 12, 13, 32, 160, 5760, 8232, 8233, 8239, 8287, 12288, 65279}
     \<or> (8192 \<le> u \<and> u \<le> 8202)"

definition is_digit :: "nat \<Rightarrow> bool" where
  "is_digit u \<longleftrightarrow> 48 \<le> u \<and> u \<le> 57"

definition trim :: "jsstring \<Rightarrow> jsstring" where
  "trim s = rev (dropWhile is_space (rev (dropWhile is_space s)))"

text \<open>The decimal rendering of an integer, as a template literal prints a whole number.\<close>

function decimal_nat :: "nat \<Rightarrow> jsstring" where
  "decimal_nat n = (if n < 10 then [48 + n] else decimal_nat (n div 10) @ [48 + n mod 10])"
  by pat_completeness auto
termination
  by (relation "measure (\<lambda>n. n)") auto

declare decimal_nat.simps [simp del]

definition decimal :: "int \<Rightarrow> jsstring" where
  "decimal t = (if t < 0 then 45 # decimal_nat (nat (- t)) else decimal_nat (nat t))"


section \<open>Regular expressions\<close>

text \<open>
  The regular expression literals of the source are kept as data and run by one matcher.
  \<open>RegExp anchored ignoreCase body\<close> stands for \<open>/^body$/\<close> when \<open>anchored\<close> and for
  \<open>/body/\<close> otherwise, with the flag \<open>i\<close> when \<open>ignoreCase\<close>. \<open>test\<close> is
  \<open>RegExp.prototype.test\<close>: without \<open>^\<close> a match may start at any position,
  and without \<open>$\<close> it may end anywhere. Matching is by derivatives of the expression.

  With the flag \<open>i\<close> (and without \<open>u\<close>) two code units match when their
  canonical forms agree. The pattern characters of this program are ASCII letters, the
  full stop and U+00B3; for those the canonical form is the ASCII upper case letter, and no
  code unit outside ASCII is mapped onto one of them.
\<close>

datatype atom = Ch nat | Space | Digit

datatype regex =
    Never
  | Empty
  | Atom atom
  | Seq regex regex
  | Alt regex regex
  | Opt regex
  | Plus regex

datatype RegExp = RegExp bool bool regex

definition canonicalize :: "nat \<Rightarrow> nat" where
  "canonicalize u = (if 97 \<le> u \<and> u \<le> 122 then u - 32 else u)"

fun atom_matches :: "bool \<Rightarrow> atom \<Rightarrow> nat \<Rightarrow> bool" where
  "atom_matches ic (Ch p) u = (if ic then canonicalize p = canonicalize u else p = u)"
| "atom_matches ic Space u = is_space u"
| "atom_matches ic Digit u = is_digit u"

fun nullable :: "regex \<Rightarrow> bool" where
  "nullable Never = False"
| "nullable Empty = True"
| "nullable (Atom a) = False"
| "nullable (Seq r s) = (nullable r \<and> nullable s)"
| "nullable (Alt r s) = (nullable r \<or> nullable s)"
| "nullable (Opt r) = True"
| "nullable (Plus r) = nullable r"

fun deriv :: "bool \<Rightarrow> nat \<Rightarrow> regex \<Rightarrow> regex" where
  "deriv ic u Never = Never"
| "deriv ic u Empty = Never"
| "deriv ic u (Atom a) = (if atom_matches ic a u then Empty else Never)"
| "deriv ic u (Seq r s) =
     (if nullable r then Alt (Seq (deriv ic u r) s) (deriv ic u s) else Seq (deriv ic u r) s)"
| "deriv ic u (Alt r s) = Alt (deriv ic u r) (deriv ic u s)"
| "deriv ic u (Opt r) = deriv ic u r"
| "deriv ic u (Plus r) = Seq (deriv ic u r) (Opt (Plus r))"

fun match_prefix :: "bool \<Rightarrow> regex \<Rightarrow> jsstring \<Rightarrow> bool" where
  "match_prefix ic r [] = nullable r"
| "match_prefix ic r (u # us) = (nullable r \<or> match_prefix ic (deriv ic u r) us)"

fun match_whole :: "bool \<Rightarrow> regex \<Rightarrow> jsstring \<Rightarrow> bool" where
  "match_whole ic r [] = nullable r"
| "match_whole ic r (u # us) = match_whole ic (deriv ic u r) us"

fun search :: "bool \<Rightarrow> regex \<Rightarrow> jsstring \<Rightarrow> bool" where
  "search ic r [] = nullable r"
| "search ic r (u # us) = (match_prefix ic r (u # us) \<or> search ic r us)"

fun test :: "RegExp \<Rightarrow> jsstring \<Rightarrow> bool" where
  "test (RegExp anchored ic r) s = (if anchored then match_whole ic r s else search ic r s)"

fun lit :: "jsstring \<Rightarrow> regex" where
  "lit [] = Empty"
| "lit [u] = Atom (Ch u)"
| "lit (u # us) = Seq (Atom (Ch u)) (lit us)"


section \<open>The generation client (\<^verbatim>\<open>src/unnamed/part_001\<close>)\<close>

subsection \<open>ensureUnits\<close>

text \<open>
  The three expressions of \<open>ensureUnits\<close>:
  \<^verbatim>\<open>/(cubic|cu\s?ft|ft\s?^3|feet)/i\<close>, \<^verbatim>\<open>/^\d+(\.\d+)?$/\<close> and \<^verbatim>\<open>/\d/\<close>,
  where \<^verbatim>\<open>^3\<close> stands for the one character SUPERSCRIPT THREE (U+00B3, code unit 179) of
  the source.
\<close>

definition units_re :: RegExp where
  "units_re = RegExp False True
     (Alt (lit (str ''cubic''))
     (Alt (Seq (lit (str ''cu'')) (Seq (Opt (Atom Space)) (lit (str ''ft''))))
     (Alt (Seq (lit (str ''ft'')) (Seq (Opt (Atom Space)) (Atom (Ch 179))))
          (lit (str ''feet'')))))"

definition number_re :: RegExp where
  "number_re = RegExp True False
     (Seq (Plus (Atom Digit)) (Opt (Seq (Atom (Ch 46)) (Plus (Atom Digit)))))"

definition digit_re :: RegExp where
  "digit_re = RegExp False False (Atom Digit)"

text \<open>
  \<^verbatim>\<open>
  const ensureUnits = (size: string | number): string => {
      const sizeStr = String(size).trim();
      if (/(cubic|cu\s?ft|ft\s?^3|feet)/i.test(sizeStr)) { return sizeStr; }
      if (/^\d+(\.\d+)?$/.test(sizeStr) || /\d/.test(sizeStr)) {
          return `${sizeStr} cubic feet`;
      }
      return sizeStr;
  };
  \<close>
  The argument is a size string; \<open>String\<close> leaves a string as it is.
\<close>

definition ensureUnits :: "jsstring \<Rightarrow> jsstring" where
  "ensureUnits sz =
    (let sizeStr = trim sz in
     if test units_re sizeStr then sizeStr
     else if test number_re sizeStr \<or> test digit_re sizeStr
       then sizeStr @ str '' cubic feet''
     else sizeStr)"


subsection \<open>The data model (src/types.ts)\<close>

text \<open>
  \<open>createdAt\<close> holds the text \<open>new Date().toISOString()\<close> of a clock reading, and the
  store reads it back with \<open>new Date(createdAt).getTime()\<close>, which returns that reading;
  the model keeps the reading itself, in milliseconds since the epoch. The field \<open>id\<close>
  is written \<open>id'\<close>.
\<close>

record InventoryItem =
  name :: jsstring
  count :: int
  description :: jsstring
  tags :: "jsstring list"
  estimatedSize :: jsstring

record InventoryData =
  inventory :: "InventoryItem list"
  transcript :: jsstring
  totalEstimatedSize :: jsstring

record SavedInventoryData = InventoryData +
  id' :: jsstring
  createdAt :: int


subsection \<open>JSON values\<close>

text \<open>
  What \<open>JSON.parse\<close> returns. A number is kept as the text that \<open>String\<close> gives
  for it; it is \<open>0\<close> or \<open>-0\<close> exactly when that text is \<open>0\<close>. An object is the list of
  its properties. A JavaScript value read from such data is a JSON value or
  \<open>undefined\<close> (\<open>None\<close>).
\<close>

datatype json =
    JNull
  | JBool bool
  | JNum jsstring
  | JStr jsstring
  | JArr "json list"
  | JObj "(jsstring \<times> json) list"

type_synonym jsobject = "(jsstring \<times> json) list"

type_synonym jsvalue = "json option"

text \<open>\<open>!v\<close> is \<open>\<not> truthy v\<close>.\<close>

fun truthy :: "jsvalue \<Rightarrow> bool" where
  "truthy None = False"
| "truthy (Some JNull) = False"
| "truthy (Some (JBool b)) = b"
| "truthy (Some (JNum t)) = (t \<noteq> str ''0'')"
| "truthy (Some (JStr s)) = (s \<noteq> [])"
| "truthy (Some (JArr xs)) = True"
| "truthy (Some (JObj fs)) = True"

text \<open>
  Reading the property \<open>k\<close> of a value that is not \<open>null\<close>, for a key that is neither
  an array index nor \<open>length\<close> nor a property of the prototypes (the keys read by this
  program are \<open>inventory\<close>, \<open>transcript\<close>, \<open>totalEstimatedSize\<close> and
  \<open>estimatedSize\<close>): an object gives its own property, every other value \<open>undefined\<close>. Reading a
  property of \<open>null\<close> throws; the callers test for \<open>null\<close> first.
\<close>

fun field :: "json \<Rightarrow> jsstring \<Rightarrow> jsvalue" where
  "field (JObj fs) k = map_of fs k"
| "field v k = None"

text \<open>
  \<open>String(v)\<close>, with \<open>None\<close> for the TypeError it throws: an array is the texts of its
  elements joined by commas, \<open>null\<close> elements giving the empty text; an object is
  \<open>[object Object]\<close> by \<open>Object.prototype.toString\<close>, unless it has an own property
  \<open>toString\<close>, which, coming from JSON, cannot be called, and then neither it nor
  \<open>valueOf\<close> yields a primitive value.
\<close>

fun join :: "jsstring list \<Rightarrow> jsstring" where
  "join [] = []"
| "join [x] = x"
| "join (x # xs) = x @ 44 # join xs"

fun to_string :: "json \<Rightarrow> jsstring option" where
  "to_string JNull = Some (str ''null'')"
| "to_string (JBool b) = Some (if b then str ''true'' else str ''false'')"
| "to_string (JNum t) = Some t"
| "to_string (JStr s) = Some s"
| "to_string (JArr xs) =
     map_option join (those (map (\<lambda>x. if x = JNull then Some [] else to_string x) xs))"
| "to_string (JObj fs) =
     (if map_of fs (str ''toString'') = None then Some (str ''[object Object]'') else None)"

declare to_string.simps(5) [simp del]

fun js_String :: "jsvalue \<Rightarrow> jsstring option" where
  "js_String None = Some (str ''undefined'')"
| "js_String (Some v) = to_string v"

text \<open>
  The own enumerable properties that the spread \<open>{...item}\<close> copies: those of an object,
  the elements of an array and the characters of a string under their indices, none of a
  number, a boolean or \<open>null\<close>.
\<close>

fun own_props :: "json \<Rightarrow> jsobject" where
  "own_props (JObj fs) = fs"
| "own_props (JArr xs) = zip (map decimal_nat [0..<length xs]) xs"
| "own_props (JStr s) = zip (map decimal_nat [0..<length s]) (map (\<lambda>u. JStr [u]) s)"
| "own_props v = []"


subsection \<open>generateInventoryFromDescription\<close>

text \<open>
  A thrown value is an \<open>Error\<close> object with its message, or something else.

  The description only enters the prompt sent to the service, which is outside this
  program; the function is modelled on what comes back: the call is rejected, or the text of
  the response is not JSON, or \<open>JSON.parse\<close> yields a value. The source casts that value
  to \<open>InventoryData\<close> without a check, so it can be any JSON value.
\<close>

datatype Thrown = ErrorObject jsstring | OtherValue

datatype ServiceOutcome =
    CallRejected Thrown
  | TextUnparseable Thrown
  | TextParsed json

definition generation_failure :: Thrown where
  "generation_failure = ErrorObject (str
     ''Failed to generate inventory from AI. Please check the console for more details.'')"

text \<open>
  A TypeError of the engine; its message is the engine's own, and the \<open>catch\<close> clause
  drops it.
\<close>

definition type_error :: Thrown where
  "type_error = ErrorObject (str ''TypeError'')"

text \<open>
  \<open>ensureUnits\<close> on a value: \<open>String(size)\<close> first, which can throw.
\<close>

definition ensureUnits_value :: "jsvalue \<Rightarrow> jsstring option" where
  "ensureUnits_value sz = map_option ensureUnits (js_String sz)"

text \<open>
  \<^verbatim>\<open>item => ({ ...item, estimatedSize: ensureUnits(item.estimatedSize) })\<close>, with
  \<open>None\<close> when it throws: reading \<open>estimatedSize\<close> of \<open>null\<close>, or \<open>String\<close>.
\<close>

definition post_process_item :: "json \<Rightarrow> json option" where
  "post_process_item item =
    (if item = JNull then None
     else case ensureUnits_value (field item (str ''estimatedSize'')) of
            None \<Rightarrow> None
          | Some sz \<Rightarrow>
              Some (JObj (AList.update (str ''estimatedSize'') (JStr sz) (own_props item))))"

text \<open>
  The body of the \<open>try\<close> block, with what it throws as \<open>Inl\<close>:
  \<^verbatim>\<open>
  const parsedData = JSON.parse(jsonText) as InventoryData;
  if (!parsedData.inventory || !parsedData.transcript || !parsedData.totalEstimatedSize) {
      throw new Error("AI response is missing required fields.");
  }
  parsedData.totalEstimatedSize = ensureUnits(parsedData.totalEstimatedSize);
  parsedData.inventory = parsedData.inventory.map(item => ({
      ...item,
      estimatedSize: ensureUnits(item.estimatedSize),
  }));
  return parsedData;
  \<close>
  Past the guard \<open>parsedData\<close> is an object. \<open>map\<close> is a function only of an array.
\<close>

definition generate_try :: "ServiceOutcome \<Rightarrow> Thrown + jsobject" where
  "generate_try outcome =
    (case outcome of
       CallRejected e \<Rightarrow> Inl e
     | TextUnparseable e \<Rightarrow> Inl e
     | TextParsed JNull \<Rightarrow> Inl type_error
     | TextParsed (JObj parsedData) \<Rightarrow>
        if \<not> truthy (map_of parsedData (str ''inventory''))
           \<or> \<not> truthy (map_of parsedData (str ''transcript''))
           \<or> \<not> truthy (map_of parsedData (str ''totalEstimatedSize''))
        then Inl (ErrorObject (str ''AI response is missing required fields.''))
        else
         (case ensureUnits_value (map_of parsedData (str ''totalEstimatedSize'')) of
            None \<Rightarrow> Inl type_error
          | Some total_size \<Rightarrow>
             (case map_of parsedData (str ''inventory'') of
                Some (JArr items) \<Rightarrow>
                  (case those (map post_process_item items) of
                     None \<Rightarrow> Inl type_error
                   | Some new_items \<Rightarrow>
                       Inr (AList.update (str ''inventory'') (JArr new_items)
                             (AList.update (str ''totalEstimatedSize'') (JStr total_size)
                                parsedData)))
              | _ \<Rightarrow> Inl type_error))
     | TextParsed v \<Rightarrow> Inl (ErrorObject (str ''AI response is missing required fields.'')))"

text \<open>The \<open>catch\<close> clause replaces whatever was thrown by one fixed error.\<close>

definition generateInventoryFromDescription :: "ServiceOutcome \<Rightarrow> Thrown + jsobject" where
  "generateInventoryFromDescription outcome =
    (case generate_try outcome of
       Inl e \<Rightarrow> Inl generation_failure
     | Inr parsedData \<Rightarrow> Inr parsedData)"


section \<open>The inventory store (storage service, in src/components/ProcessingIndicator.tsx)\<close>

text \<open>
  The browser's \<open>localStorage\<close> under the one key the service uses: no entry, or a
  text. A text is either what \<open>JSON.stringify\<close> wrote for a list of records, which
  \<open>JSON.parse\<close> reads back as that list, or a text the \<open>try\<close> block of
  \<open>getSavedInventories\<close> cannot turn into a sorted list (\<open>Unreadable\<close>, with the text:
  the empty text is the one \<open>if (savedData)\<close> rejects before parsing).
\<close>

datatype StoredText = Unreadable jsstring | Encoded "SavedInventoryData list"

type_synonym Storage = "StoredText option"

text \<open>
  \<open>Array.prototype.sort\<close> is stable; the comparator
  \<open>(a, b) => time(b) - time(a)\<close> puts the later \<open>createdAt\<close> first.
\<close>

definition newest_first :: "SavedInventoryData list \<Rightarrow> SavedInventoryData list" where
  "newest_first inventories = sort_key (\<lambda>a. - createdAt a) inventories"

text \<open>
  \<^verbatim>\<open>
  export const getSavedInventories = (): SavedInventoryData[] => {
      try {
          const savedData = localStorage.getItem(STORAGE_KEY);
          if (savedData) {
              const inventories = JSON.parse(savedData) as SavedInventoryData[];
              return inventories.sort((a, b) =>
                new Date(b.createdAt).getTime() - new Date(a.createdAt).getTime());
          }
      } catch (error) {
          localStorage.removeItem(STORAGE_KEY);
      }
      return [];
  };
  \<close>
  The function returns the list and leaves the storage as its second component.
\<close>

definition getSavedInventories :: "Storage \<Rightarrow> SavedInventoryData list \<times> Storage" where
  "getSavedInventories st =
    (case st of
       None \<Rightarrow> ([], st)
     | Some (Unreadable savedData) \<Rightarrow> if savedData = [] then ([], st) else ([], None)
     | Some (Encoded inventories) \<Rightarrow> (newest_first inventories, st))"

text \<open>
  \<open>saveInventory\<close> reads the clock twice, once for the id (\<open>t_id\<close>) and once for
  \<open>createdAt\<close> (\<open>t_created\<close>). Whether \<open>localStorage.setItem\<close> succeeds is the
  browser's decision (\<open>writable\<close>); when it throws, \<open>saveInventory\<close> throws its own
  error and \<open>deleteInventoryById\<close> only logs.
\<close>

definition saveInventory ::
  "InventoryData \<Rightarrow> int \<Rightarrow> int \<Rightarrow> bool \<Rightarrow> Storage \<Rightarrow> (Thrown + SavedInventoryData) \<times> Storage"
where
  "saveInventory inventoryData t_id t_created writable st =
    (let (allInventories, st1) = getSavedInventories st;
         newInventory = \<lparr> inventory = inventory inventoryData,
                          transcript = transcript inventoryData,
                          totalEstimatedSize = totalEstimatedSize inventoryData,
                          id' = str ''inv_'' @ decimal t_id,
                          createdAt = t_created \<rparr>
     in if writable
        then (Inr newInventory, Some (Encoded (newInventory # allInventories)))
        else (Inl (ErrorObject (str ''Could not save the inventory. Storage might be full.'')),
              st1))"

definition deleteInventoryById :: "jsstring \<Rightarrow> bool \<Rightarrow> Storage \<Rightarrow> Storage" where
  "deleteInventoryById i writable st =
    (let (allInventories, st1) = getSavedInventories st;
         filteredInventories = filter (\<lambda>saved. id' saved \<noteq> i) allInventories
     in if writable then Some (Encoded filteredInventories) else st1)"


section \<open>The application state machine (src/App.tsx)\<close>

datatype View = IDLE | PROCESSING | SUCCESS | ERROR | LIST_INVENTORIES | CAPTURING_VIDEO

text \<open>
  \<open>activeInventory\<close> has the type \<open>InventoryData | SavedInventoryData | null\<close>: the
  object the generation client returned, or a record of the store. \<open>has_id\<close> is the test
  \<open>'id' in activeInventory\<close>, and \<open>id_is\<close> is \<open>activeInventory.id === id\<close> for a
  string \<open>id\<close>.
\<close>

datatype Active = Generated jsobject | FromStore SavedInventoryData

fun has_id :: "Active \<Rightarrow> bool" where
  "has_id (Generated result) = (map_of result (str ''id'') \<noteq> None)"
| "has_id (FromStore saved) = True"

fun id_is :: "Active \<Rightarrow> jsstring \<Rightarrow> bool" where
  "id_is (Generated result) i = (map_of result (str ''id'') = Some (JStr i))"
| "id_is (FromStore saved) i = (id' saved = i)"

text \<open>
  The state of the component \<open>App\<close>, one field for each \<open>useState\<close>, and the storage
  its handlers reach through the store.
\<close>

record App =
  description :: jsstring
  view :: View
  activeInventory :: "Active option"
  savedInventories :: "SavedInventoryData list"
  error :: "jsstring option"
  fileName :: "jsstring option"
  isProcessingVideo :: bool
  localStorage :: Storage

text \<open>The state after the first render and its effect, which loads the saved list.\<close>

definition mounted :: "Storage \<Rightarrow> App" where
  "mounted st =
    (let (inventories, st1) = getSavedInventories st
     in \<lparr> description = [], view = IDLE, activeInventory = None,
          savedInventories = inventories, error = None, fileName = None,
          isProcessingVideo = False, localStorage = st1 \<rparr>)"

text \<open>\<open>err instanceof Error ? err.message : fallback\<close>\<close>

definition message_or :: "Thrown \<Rightarrow> jsstring \<Rightarrow> jsstring" where
  "message_or err fallback = (case err of ErrorObject m \<Rightarrow> m | OtherValue \<Rightarrow> fallback)"

text \<open>
  An asynchronous handler is two steps: what it does up to its \<open>await\<close>, and what it
  does when the awaited call settles. \<open>processVideoFile\<close>:
\<close>

definition processVideoFile_begin :: "jsstring \<Rightarrow> App \<Rightarrow> App" where
  "processVideoFile_begin file_name s =
     s\<lparr> fileName := Some file_name, isProcessingVideo := True, error := None,
        description := [] \<rparr>"

definition processVideoFile_settle :: "Thrown + jsstring \<Rightarrow> App \<Rightarrow> App" where
  "processVideoFile_settle r s =
    (case r of
       Inr generatedDescription \<Rightarrow>
         s\<lparr> description := generatedDescription, isProcessingVideo := False \<rparr>
     | Inl err \<Rightarrow>
         s\<lparr> error := Some (message_or err (str ''Could not process the video file.'')),
            fileName := None, isProcessingVideo := False \<rparr>)"

definition handleFileChange :: "jsstring option \<Rightarrow> App \<Rightarrow> App" where
  "handleFileChange files s =
    (case files of
       Some file_name \<Rightarrow> processVideoFile_begin file_name s
     | None \<Rightarrow> s\<lparr> fileName := None \<rparr>)"

definition handleCaptureComplete :: "jsstring \<Rightarrow> App \<Rightarrow> App" where
  "handleCaptureComplete file_name s = processVideoFile_begin file_name (s\<lparr> view := IDLE \<rparr>)"

text \<open>
  \<open>handleSubmit\<close> up to the call of the generation client: the new state, and the
  description the request is made with, if one is made.
\<close>

definition validation_message :: jsstring where
  "validation_message =
     str ''Please describe the contents of your space for an accurate estimate.''"

definition handleSubmit_begin :: "App \<Rightarrow> App \<times> jsstring option" where
  "handleSubmit_begin s =
    (if trim (description s) = []
     then (s\<lparr> error := Some validation_message \<rparr>, None)
     else (s\<lparr> error := None, view := PROCESSING, activeInventory := None \<rparr>,
           Some (description s)))"

definition handleSubmit_settle :: "ServiceOutcome \<Rightarrow> App \<Rightarrow> App" where
  "handleSubmit_settle outcome s =
    (case generateInventoryFromDescription outcome of
       Inr result \<Rightarrow> s\<lparr> activeInventory := Some (Generated result), view := SUCCESS \<rparr>
     | Inl err \<Rightarrow>
         s\<lparr> error := Some (message_or err (str ''An unknown error occurred.'')),
            view := ERROR \<rparr>)"

definition handleResetToIdle :: "App \<Rightarrow> App" where
  "handleResetToIdle s =
     s\<lparr> view := IDLE, activeInventory := None, error := None, description := [],
        fileName := None, isProcessingVideo := False \<rparr>"

text \<open>
  When \<open>saveInventory\<close> throws, the handler is left before it sets any state.
\<close>

definition handleSaveInventory :: "InventoryData \<Rightarrow> int \<Rightarrow> int \<Rightarrow> bool \<Rightarrow> App \<Rightarrow> App" where
  "handleSaveInventory inventoryToSave t_id t_created writable s =
    (case saveInventory inventoryToSave t_id t_created writable (localStorage s) of
       (Inl err, st) \<Rightarrow> s\<lparr> localStorage := st \<rparr>
     | (Inr newSavedItem, st) \<Rightarrow>
         s\<lparr> savedInventories := newSavedItem # savedInventories s,
            view := LIST_INVENTORIES, localStorage := st \<rparr>)"

definition handleDeleteInventory :: "jsstring \<Rightarrow> bool \<Rightarrow> App \<Rightarrow> App" where
  "handleDeleteInventory i writable s =
    (let (updatedList, st) = getSavedInventories (deleteInventoryById i writable (localStorage s));
         s1 = s\<lparr> savedInventories := updatedList, localStorage := st \<rparr>
     in case activeInventory s of
          Some a \<Rightarrow>
            if has_id a \<and> id_is a i
            then s1\<lparr> view := LIST_INVENTORIES, activeInventory := None \<rparr> else s1
        | None \<Rightarrow> s1)"

definition handleViewInventory :: "SavedInventoryData \<Rightarrow> App \<Rightarrow> App" where
  "handleViewInventory selected s = s\<lparr> activeInventory := Some (FromStore selected), view := SUCCESS \<rparr>"

definition onDone :: "App \<Rightarrow> App" where
  "onDone s =
    (case activeInventory s of
       Some a \<Rightarrow> if has_id a then s\<lparr> view := LIST_INVENTORIES \<rparr> else handleResetToIdle s
     | None \<Rightarrow> handleResetToIdle s)"

text \<open>
  What the submit control of the form does. The control is disabled while a video is
  processed, and the textarea of the description is \<open>required\<close> in a form that
  validates: on an empty description the browser reports the missing field and blocks the
  submit, and \<open>handleSubmit\<close> is not called. The result is the new state and the
  description the generation client is called with, if it is called.
\<close>

definition form_submit :: "App \<Rightarrow> App \<times> jsstring option" where
  "form_submit s =
    (if view s = IDLE \<and> \<not> isProcessingVideo s \<and> description s \<noteq> []
     then handleSubmit_begin s else (s, None))"

text \<open>
  The events, and \<open>step\<close>, which follows \<open>renderContent\<close>: a handler runs only in the
  view that renders its control (and, for the controls of the form, only while they are
  enabled); elsewhere the event changes nothing. The result view is rendered only with an
  active inventory. The generation call settles while the processing view is shown: that
  view renders no control, and only the settling of \<open>handleSubmit\<close> leaves it. The
  settling of a video description can arrive in any view.
\<close>

datatype Event =
    DescriptionTyped jsstring
  | ViewSavedClicked
  | UseCameraClicked
  | FileChosen "jsstring option"
  | VideoSettled "Thrown + jsstring"
  | FormSubmitted
  | GenerationSettled ServiceOutcome
  | CaptureCancelled
  | CaptureCompleted jsstring
  | SaveClicked InventoryData int int bool
  | DeleteClicked jsstring bool
  | DoneClicked
  | ViewClicked SavedInventoryData
  | NewClicked
  | TryAgainClicked

fun step :: "App \<Rightarrow> Event \<Rightarrow> App" where
  "step s (DescriptionTyped d) =
     (if view s = IDLE \<and> \<not> isProcessingVideo s then s\<lparr> description := d \<rparr> else s)"
| "step s ViewSavedClicked =
     (if view s = IDLE \<and> savedInventories s \<noteq> [] then s\<lparr> view := LIST_INVENTORIES \<rparr> else s)"
| "step s UseCameraClicked =
     (if view s = IDLE \<and> \<not> isProcessingVideo s then s\<lparr> view := CAPTURING_VIDEO \<rparr> else s)"
| "step s (FileChosen files) =
     (if view s = IDLE \<and> \<not> isProcessingVideo s then handleFileChange files s else s)"
| "step s (VideoSettled r) = processVideoFile_settle r s"
| "step s FormSubmitted = fst (form_submit s)"
| "step s (GenerationSettled outcome) =
     (if view s = PROCESSING then handleSubmit_settle outcome s else s)"
| "step s CaptureCancelled =
     (if view s = CAPTURING_VIDEO then s\<lparr> view := IDLE \<rparr> else s)"
| "step s (CaptureCompleted file_name) =
     (if view s = CAPTURING_VIDEO then handleCaptureComplete file_name s else s)"
| "step s (SaveClicked inventoryToSave t_id t_created writable) =
     (if view s = SUCCESS \<and> activeInventory s \<noteq> None
      then handleSaveInventory inventoryToSave t_id t_created writable s else s)"
| "step s (DeleteClicked i writable) =
     (if (view s = SUCCESS \<and> activeInventory s \<noteq> None) \<or> view s = LIST_INVENTORIES
      then handleDeleteInventory i writable s else s)"
| "step s DoneClicked =
     (if view s = SUCCESS \<and> activeInventory s \<noteq> None then onDone s else s)"
| "step s (ViewClicked selected) =
     (if view s = LIST_INVENTORIES then handleViewInventory selected s else s)"
| "step s NewClicked = (if view s = LIST_INVENTORIES then handleResetToIdle s else s)"
| "step s TryAgainClicked = (if view s = ERROR then handleResetToIdle s else s)"

definition run :: "App \<Rightarrow> Event list \<Rightarrow> App" where
  "run s events = foldl step s events"


section \<open>Specification notions\<close>

text \<open>
  The language of an expression: the code unit sequences it matches as a whole.
\<close>

definition conc :: "jsstring set \<Rightarrow> jsstring set \<Rightarrow> jsstring set" where
  "conc A B = {v @ w | v w. v \<in> A \<and> w \<in> B}"

inductive_set repeated :: "jsstring set \<Rightarrow> jsstring set" for A :: "jsstring set" where
  once: "w \<in> A \<Longrightarrow> w \<in> repeated A"
| more: "v \<in> A \<Longrightarrow> w \<in> repeated A \<Longrightarrow> v @ w \<in> repeated A"

fun lang :: "bool \<Rightarrow> regex \<Rightarrow> jsstring set" where
  "lang ic Never = {}"
| "lang ic Empty = {[]}"
| "lang ic (Atom a) = {[u] | u. atom_matches ic a u}"
| "lang ic (Seq r s) = conc (lang ic r) (lang ic s)"
| "lang ic (Alt r s) = lang ic r \<union> lang ic s"
| "lang ic (Opt r) = insert [] (lang ic r)"
| "lang ic (Plus r) = repeated (lang ic r)"


text \<open>
  A unit token, after the words of the specification, which lists \<open>cubic\<close>, \<open>cu ft\<close>,
  \<open>ft\<close> with SUPERSCRIPT THREE, and \<open>feet\<close>, in either case: one of \<open>cubic\<close> and
  \<open>feet\<close>, or \<open>cu\<close> and \<open>ft\<close> with at most one white space character between them,
  or \<open>ft\<close> and SUPERSCRIPT THREE with at most one white space character between them.
  A size string is unit-bearing when a token occurs in it.
\<close>

definition same_ignoring_case :: "jsstring \<Rightarrow> jsstring \<Rightarrow> bool" where
  "same_ignoring_case w m \<longleftrightarrow> map canonicalize m = map canonicalize w"

definition optional_space :: "jsstring \<Rightarrow> bool" where
  "optional_space g \<longleftrightarrow> g = [] \<or> (\<exists>u. g = [u] \<and> is_space u)"

definition is_unit_token :: "jsstring \<Rightarrow> bool" where
  "is_unit_token m \<longleftrightarrow>
     same_ignoring_case (str ''cubic'') m
     \<or> (\<exists>a g b. m = a @ g @ b \<and> same_ignoring_case (str ''cu'') a \<and> optional_space g
           \<and> same_ignoring_case (str ''ft'') b)
     \<or> (\<exists>a g. m = a @ g @ [179] \<and> same_ignoring_case (str ''ft'') a \<and> optional_space g)
     \<or> same_ignoring_case (str ''feet'') m"

definition contains_unit_token :: "jsstring \<Rightarrow> bool" where
  "contains_unit_token t \<longleftrightarrow> (\<exists>ps m ss. t = ps @ m @ ss \<and> is_unit_token m)"

text \<open>
  A response the generation client rejects, in the words of the specification and of the
  source's guard. A field is absent or falsy when it is missing or \<open>null\<close>, \<open>false\<close>,
  \<open>0\<close> or the empty string (every field of a value that is no object is missing). A value
  cannot be printed when it is an object with an own property \<open>toString\<close>, or an array
  that holds such a value at any depth. A response is invalid when one of \<open>inventory\<close>,
  \<open>transcript\<close>, \<open>totalEstimatedSize\<close> is absent or falsy, or \<open>totalEstimatedSize\<close>
  cannot be printed, or \<open>inventory\<close> is no array, or an item of it is \<open>null\<close> or has an
  \<open>estimatedSize\<close> that cannot be printed.
\<close>

definition absent_or_falsy :: "jsvalue \<Rightarrow> bool" where
  "absent_or_falsy v \<longleftrightarrow>
     v \<in> {None, Some JNull, Some (JBool False), Some (JNum (str ''0'')), Some (JStr [])}"

fun unprintable :: "json \<Rightarrow> bool" where
  "unprintable (JObj fs) = (map_of fs (str ''toString'') \<noteq> None)"
| "unprintable (JArr xs) = (\<exists>x \<in> set xs. unprintable x)"
| "unprintable v = False"



definition invalid_response :: "json \<Rightarrow> bool" where
  "invalid_response v \<longleftrightarrow>
     absent_or_falsy (field v (str ''inventory''))
     \<or> absent_or_falsy (field v (str ''transcript''))
     \<or> absent_or_falsy (field v (str ''totalEstimatedSize''))
     \<or> (\<exists>x. field v (str ''totalEstimatedSize'') = Some x \<and> unprintable x)
     \<or> (\<forall>items. field v (str ''inventory'') \<noteq> Some (JArr items))
     \<or> (\<exists>items. field v (str ''inventory'') = Some (JArr items)
          \<and> (\<exists>item \<in> set items. item = JNull
                \<or> (\<exists>x. field item (str ''estimatedSize'') = Some x \<and> unprintable x)))"

text \<open>
  The invariant of the state machine on \<open>activeInventory\<close>: it is set only while the
  result view or the list view is shown.
\<close>

definition active_only_shown :: "App \<Rightarrow> bool" where
  "active_only_shown s \<longleftrightarrow>
     (activeInventory s \<noteq> None \<longrightarrow> view s = SUCCESS \<or> view s = LIST_INVENTORIES)"


section \<open>Matching by derivatives decides the language\<close>

lemma Nil_in_conc: "[] \<in> conc A B \<longleftrightarrow> [] \<in> A \<and> [] \<in> B"
  by (auto simp: conc_def)

lemma Nil_in_repeated: "[] \<in> repeated A \<longleftrightarrow> [] \<in> A"
proof
  assume "[] \<in> repeated A"
  then show "[] \<in> A"
    by (induction "[] :: jsstring" rule: repeated.induct) auto
next
  assume "[] \<in> A" then show "[] \<in> repeated A" by (rule repeated.once)
qed

lemma nullable_lang: "nullable r \<longleftrightarrow> [] \<in> lang ic r"
  by (induction r) (auto simp: Nil_in_conc Nil_in_repeated)

lemma Cons_in_conc:
  "u # w \<in> conc A B \<longleftrightarrow>
     (\<exists>v x. w = v @ x \<and> u # v \<in> A \<and> x \<in> B) \<or> ([] \<in> A \<and> u # w \<in> B)"
  by (auto simp: conc_def Cons_eq_append_conv) 

lemma Cons_in_repeated_D:
  "x \<in> repeated A \<Longrightarrow> x = u # w \<Longrightarrow>
     \<exists>v y. w = v @ y \<and> u # v \<in> A \<and> (y = [] \<or> y \<in> repeated A)"
proof (induction arbitrary: w rule: repeated.induct)
  case (once x)
  then show ?case by auto
next
  case (more v x)
  show ?case
  proof (cases v)
    case Nil
    with more show ?thesis by simp
  next
    case (Cons a v')
    with more.prems have "a = u" "w = v' @ x" by auto
    with more.hyps Cons show ?thesis by blast
  qed
qed

lemma Cons_in_repeated:
  "u # w \<in> repeated A \<longleftrightarrow>
     (\<exists>v y. w = v @ y \<and> u # v \<in> A \<and> (y = [] \<or> y \<in> repeated A))"
proof
  assume "u # w \<in> repeated A"
  then show "\<exists>v y. w = v @ y \<and> u # v \<in> A \<and> (y = [] \<or> y \<in> repeated A)"
    by (rule Cons_in_repeated_D) simp
next
  assume "\<exists>v y. w = v @ y \<and> u # v \<in> A \<and> (y = [] \<or> y \<in> repeated A)"
  then obtain v y where w: "w = v @ y" and a: "u # v \<in> A" and y: "y = [] \<or> y \<in> repeated A"
    by blast
  from y show "u # w \<in> repeated A"
  proof
    assume "y = []" with w a show ?thesis by (simp add: repeated.once)
  next
    assume "y \<in> repeated A"
    with a have "(u # v) @ y \<in> repeated A" by (rule repeated.more)
    with w show ?thesis by simp
  qed
qed

lemma in_conc: "w \<in> conc A B \<longleftrightarrow> (\<exists>v x. w = v @ x \<and> v \<in> A \<and> x \<in> B)"
  by (auto simp: conc_def)

lemma lang_deriv: "w \<in> lang ic (deriv ic u r) \<longleftrightarrow> u # w \<in> lang ic r"
proof (induction r arbitrary: w)
  case (Seq r s)
  have "w \<in> lang ic (deriv ic u (Seq r s)) \<longleftrightarrow>
          (\<exists>v x. w = v @ x \<and> v \<in> lang ic (deriv ic u r) \<and> x \<in> lang ic s)
          \<or> (nullable r \<and> w \<in> lang ic (deriv ic u s))"
    by (simp add: in_conc)
  also have "\<dots> \<longleftrightarrow> (\<exists>v x. w = v @ x \<and> u # v \<in> lang ic r \<and> x \<in> lang ic s)
          \<or> ([] \<in> lang ic r \<and> u # w \<in> lang ic s)"
    by (simp add: Seq.IH nullable_lang [of _ ic])
  also have "\<dots> \<longleftrightarrow> u # w \<in> lang ic (Seq r s)"
    by (simp add: Cons_in_conc)
  finally show ?case .
next
  case (Plus r)
  have "w \<in> lang ic (deriv ic u (Plus r)) \<longleftrightarrow>
          (\<exists>v y. w = v @ y \<and> v \<in> lang ic (deriv ic u r) \<and> (y = [] \<or> y \<in> repeated (lang ic r)))"
    by (simp add: in_conc)
  also have "\<dots> \<longleftrightarrow> u # w \<in> lang ic (Plus r)"
    by (simp add: Plus.IH Cons_in_repeated)
  finally show ?case .
qed auto

lemma match_whole_lang: "match_whole ic r s \<longleftrightarrow> s \<in> lang ic r"
  by (induction s arbitrary: r) (simp_all add: nullable_lang [of _ ic] lang_deriv)

lemma match_prefix_lang:
  "match_prefix ic r s \<longleftrightarrow> (\<exists>m ss. s = m @ ss \<and> m \<in> lang ic r)"
proof (induction s arbitrary: r)
  case Nil
  show ?case by (simp add: nullable_lang [of _ ic])
next
  case (Cons u us)
  show ?case
  proof
    assume "match_prefix ic r (u # us)"
    then consider "nullable r" | "match_prefix ic (deriv ic u r) us" by auto
    then show "\<exists>m ss. u # us = m @ ss \<and> m \<in> lang ic r"
    proof cases
      case 1
      then have "u # us = [] @ (u # us) \<and> [] \<in> lang ic r" by (simp add: nullable_lang [of _ ic])
      then show ?thesis by blast
    next
      case 2
      then obtain m ss where "us = m @ ss" "m \<in> lang ic (deriv ic u r)"
        using Cons.IH by blast
      then have "u # us = (u # m) @ ss \<and> u # m \<in> lang ic r" by (simp add: lang_deriv)
      then show ?thesis by blast
    qed
  next
    assume "\<exists>m ss. u # us = m @ ss \<and> m \<in> lang ic r"
    then obtain m ss where eq: "u # us = m @ ss" and m: "m \<in> lang ic r" by blast
    show "match_prefix ic r (u # us)"
    proof (cases m)
      case Nil
      with m show ?thesis by (simp add: nullable_lang [of _ ic])
    next
      case (Cons a m')
      with eq have "a = u" "us = m' @ ss" by auto
      moreover from m Cons \<open>a = u\<close> have "m' \<in> lang ic (deriv ic u r)" by (simp add: lang_deriv)
      ultimately have "match_prefix ic (deriv ic u r) us" using Cons.IH by blast
      then show ?thesis by simp
    qed
  qed
qed

lemma search_lang:
  "search ic r s \<longleftrightarrow> (\<exists>ps m ss. s = ps @ m @ ss \<and> m \<in> lang ic r)"
proof (induction s)
  case Nil
  show ?case by (simp add: nullable_lang [of _ ic])
next
  case (Cons u us)
  show ?case
  proof
    assume "search ic r (u # us)"
    then consider "match_prefix ic r (u # us)" | "search ic r us" by auto
    then show "\<exists>ps m ss. u # us = ps @ m @ ss \<and> m \<in> lang ic r"
    proof cases
      case 1
      then obtain m ss where "u # us = [] @ m @ ss \<and> m \<in> lang ic r"
        by (auto simp: match_prefix_lang)
      then show ?thesis by blast
    next
      case 2
      then obtain ps m ss where "us = ps @ m @ ss" "m \<in> lang ic r" using Cons.IH by blast
      then have "u # us = (u # ps) @ m @ ss \<and> m \<in> lang ic r" by simp
      then show ?thesis by blast
    qed
  next
    assume "\<exists>ps m ss. u # us = ps @ m @ ss \<and> m \<in> lang ic r"
    then obtain ps m ss where eq: "u # us = ps @ m @ ss" and m: "m \<in> lang ic r" by blast
    show "search ic r (u # us)"
    proof (cases ps)
      case Nil
      with eq m have "match_prefix ic r (u # us)" by (auto simp: match_prefix_lang)
      then show ?thesis by simp
    next
      case (Cons a ps')
      with eq have "us = ps' @ m @ ss" by simp
      with m have "search ic r us" using Cons.IH by blast
      then show ?thesis by simp
    qed
  qed
qed


lemma in_atom_conc:
  "m \<in> conc {[x] | x. P x} B \<longleftrightarrow> (\<exists>x m'. m = x # m' \<and> P x \<and> m' \<in> B)"
proof
  assume "m \<in> conc {[x] | x. P x} B"
  then show "\<exists>x m'. m = x # m' \<and> P x \<and> m' \<in> B"
    by (auto simp: conc_def)
next
  assume "\<exists>x m'. m = x # m' \<and> P x \<and> m' \<in> B"
  then obtain x m' where "m = [x] @ m'" "P x" "m' \<in> B" by auto
  then show "m \<in> conc {[x] | x. P x} B"
    unfolding conc_def by blast
qed

lemma lang_lit: "lang True (lit w) = {m. same_ignoring_case w m}"
proof (induction w rule: lit.induct)
  case 1
  show ?case by (simp add: same_ignoring_case_def)
next
  case (2 u)
  show ?case by (auto simp: same_ignoring_case_def)
next
  case (3 u v vs)
  show ?case
    unfolding lit.simps lang.simps 3
    by (auto simp: same_ignoring_case_def in_atom_conc map_eq_Cons_conv)
qed

lemma lang_opt_space: "lang ic (Opt (Atom Space)) = {g. optional_space g}"
  by (auto simp: optional_space_def)

lemma canonicalize_179: "canonicalize 179 = canonicalize u \<longleftrightarrow> u = 179"
  by (auto simp: canonicalize_def)

lemma lang_cube: "lang True (Atom (Ch 179)) = {[179]}"
  by (auto simp: canonicalize_179)


section \<open>ensureUnits: the case split and idempotence\<close>

lemma test_units_re: "test units_re t \<longleftrightarrow> contains_unit_token t"
proof -
  have "lang True (Alt (lit (str ''cubic''))
     (Alt (Seq (lit (str ''cu'')) (Seq (Opt (Atom Space)) (lit (str ''ft''))))
     (Alt (Seq (lit (str ''ft'')) (Seq (Opt (Atom Space)) (Atom (Ch 179))))
          (lit (str ''feet''))))) = {m. is_unit_token m}"
    unfolding lang.simps(4,5) lang_lit lang_opt_space lang_cube
    by (auto simp: is_unit_token_def in_conc; blast)
  then show ?thesis
    by (simp add: units_re_def search_lang contains_unit_token_def)
qed

lemma repeated_digits:
  "v \<in> repeated {[u] | u. is_digit u} \<Longrightarrow> v \<noteq> [] \<and> (\<forall>u \<in> set v. is_digit u)"
  by (induction rule: repeated.induct) auto

lemma test_number_re_digit: "test number_re t \<Longrightarrow> \<exists>u \<in> set t. is_digit u"
proof -
  assume "test number_re t"
  then have "t \<in> conc (repeated {[u] | u. is_digit u})
                 (lang False (Opt (Seq (Atom (Ch 46)) (Plus (Atom Digit)))))"
    by (simp add: number_re_def match_whole_lang)
  then obtain v x where "t = v @ x" "v \<in> repeated {[u] | u. is_digit u}"
    by (auto simp: in_conc)
  with repeated_digits [of v] show ?thesis
    by (cases v) auto
qed

lemma test_digit_re: "test digit_re t \<longleftrightarrow> (\<exists>u \<in> set t. is_digit u)"
proof
  assume "test digit_re t"
  then show "\<exists>u \<in> set t. is_digit u"
    by (auto simp: digit_re_def search_lang)
next
  assume "\<exists>u \<in> set t. is_digit u"
  then obtain u where "u \<in> set t" "is_digit u" by blast
  then obtain ps ss where "t = ps @ [u] @ ss" by (auto dest: split_list)
  with \<open>is_digit u\<close> have "t = ps @ [u] @ ss \<and> [u] \<in> lang False (Atom Digit)" by simp
  then have "\<exists>ps m ss. t = ps @ m @ ss \<and> m \<in> lang False (Atom Digit)" by blast
  then show "test digit_re t"
    by (simp only: digit_re_def test.simps search_lang if_False)
qed

lemma ensureUnits_cases:
  "ensureUnits s =
     (if contains_unit_token (trim s) then trim s
      else if (\<exists>u \<in> set (trim s). is_digit u) then trim s @ str '' cubic feet''
      else trim s)"
  using test_number_re_digit [of "trim s"]
  by (auto simp: ensureUnits_def Let_def test_units_re test_digit_re)


lemma dropWhile_keep:
  "x \<noteq> [] \<Longrightarrow> \<not> P (hd x) \<Longrightarrow> dropWhile P (a @ x @ b) = dropWhile P a @ x @ b"
  by (induction a) (auto simp: neq_Nil_conv)

lemma trim_keeps_infix:
  assumes "m \<noteq> []" "\<not> is_space (hd m)" "\<not> is_space (last m)"
  shows "trim (ps @ m @ ss) = dropWhile is_space ps @ m @ rev (dropWhile is_space (rev ss))"
proof -
  from assms have r: "rev m \<noteq> []" "\<not> is_space (hd (rev m))"
    by (simp_all add: hd_rev)
  have a: "dropWhile is_space (ps @ m @ ss) = dropWhile is_space ps @ m @ ss"
    using assms(1,2) by (rule dropWhile_keep)
  have b: "dropWhile is_space (rev ss @ rev m @ rev (dropWhile is_space ps))
         = dropWhile is_space (rev ss) @ rev m @ rev (dropWhile is_space ps)"
    using r by (rule dropWhile_keep)
  show ?thesis
    unfolding trim_def a by (simp add: b)
qed

lemma last_dropWhile: "dropWhile P ys \<noteq> [] \<Longrightarrow> last (dropWhile P ys) = last ys"
  by (metis last_appendR takeWhile_dropWhile_id)


lemma trim_ends:
  assumes "trim s \<noteq> []"
  shows "\<not> is_space (hd (trim s))" and "\<not> is_space (last (trim s))"
proof -
  let ?d = "dropWhile is_space s"
  let ?x = "dropWhile is_space (rev ?d)"
  from assms have x: "?x \<noteq> []" unfolding trim_def by (simp only: rev_is_Nil_conv not_False_eq_True)
  then have d: "?d \<noteq> []" by (metis dropWhile.simps(1) rev.simps(1))
  have "hd (trim s) = last ?x" using x unfolding trim_def by (simp only: hd_rev)
  also have "\<dots> = last (rev ?d)" using x by (rule last_dropWhile)
  also have "\<dots> = hd ?d" using d by (simp only: last_rev)
  finally show "\<not> is_space (hd (trim s))" using d by (simp only: hd_dropWhile not_False_eq_True)
  have "last (trim s) = hd ?x" using x unfolding trim_def by (simp only: last_rev)
  then show "\<not> is_space (last (trim s))" using x by (simp only: hd_dropWhile not_False_eq_True)
qed

lemma trim_fixed:
  assumes "t \<noteq> []" "\<not> is_space (hd t)" "\<not> is_space (last t)"
  shows "trim t = t"
  using trim_keeps_infix [OF assms, of "[]" "[]"] by simp

lemma trim_Nil: "trim [] = []"
  by (simp add: trim_def)

lemma trim_trim: "trim (trim s) = trim s"
proof (cases "trim s = []")
  case True
  then show ?thesis by (simp only: trim_Nil)
next
  case False
  then show ?thesis by (intro trim_fixed trim_ends)
qed


lemma letter_not_space:
  "canonicalize x = k \<Longrightarrow> 65 \<le> k \<Longrightarrow> k \<le> 90 \<Longrightarrow> \<not> is_space x"
  by (auto simp: canonicalize_def is_space_def split: if_splits)

lemma cube_not_space: "\<not> is_space 179"
  by (simp add: is_space_def)

lemma unit_token_ends:
  assumes "is_unit_token m"
  shows "m \<noteq> [] \<and> \<not> is_space (hd m) \<and> \<not> is_space (last m)"
proof -
  have c: "canonicalize 99 = 67" "canonicalize 117 = 85" "canonicalize 98 = 66"
    "canonicalize 105 = 73" "canonicalize 102 = 70" "canonicalize 116 = 84"
    "canonicalize 101 = 69"
    by (simp_all add: canonicalize_def)
  from assms consider
      "same_ignoring_case (str ''cubic'') m"
    | a g b where "m = a @ g @ b" "same_ignoring_case (str ''cu'') a"
        "same_ignoring_case (str ''ft'') b"
    | a g where "m = a @ g @ [179]" "same_ignoring_case (str ''ft'') a"
    | "same_ignoring_case (str ''feet'') m"
    unfolding is_unit_token_def by blast
  then show ?thesis
  proof cases
    case 1
    then show ?thesis
      by (auto simp: same_ignoring_case_def str_def map_eq_Cons_conv c
               elim: letter_not_space [THEN notE, rotated 3])
  next
    case 2
    then show ?thesis
      by (auto simp: same_ignoring_case_def str_def map_eq_Cons_conv c
               elim: letter_not_space [THEN notE, rotated 3])
  next
    case 3
    then show ?thesis
      by (auto simp: same_ignoring_case_def str_def map_eq_Cons_conv c cube_not_space
               elim: letter_not_space [THEN notE, rotated 3])
  next
    case 4
    then show ?thesis
      by (auto simp: same_ignoring_case_def str_def map_eq_Cons_conv c
               elim: letter_not_space [THEN notE, rotated 3])
  qed
qed

lemma contains_unit_token_trim:
  assumes "contains_unit_token s"
  shows "contains_unit_token (trim s)"
proof -
  from assms obtain ps m ss where s: "s = ps @ m @ ss" and m: "is_unit_token m"
    unfolding contains_unit_token_def by blast
  from unit_token_ends [OF m] have "m \<noteq> []" "\<not> is_space (hd m)" "\<not> is_space (last m)"
    by simp_all
  then have "trim s = dropWhile is_space ps @ m @ rev (dropWhile is_space (rev ss))"
    unfolding s by (rule trim_keeps_infix)
  with m show ?thesis
    unfolding contains_unit_token_def by blast
qed

lemma suffix_trimmed:
  assumes "t \<noteq> []" "\<not> is_space (hd t)"
  shows "trim (t @ str '' cubic feet'') = t @ str '' cubic feet''"
proof (rule trim_fixed)
  show "t @ str '' cubic feet'' \<noteq> []" using assms by simp
  show "\<not> is_space (hd (t @ str '' cubic feet''))" using assms by simp
  show "\<not> is_space (last (t @ str '' cubic feet''))"
    by (simp add: str_def is_space_def)
qed

lemma suffix_has_unit: "contains_unit_token (t @ str '' cubic feet'')"
proof -
  have "is_unit_token (str ''cubic'')"
    by (simp add: is_unit_token_def same_ignoring_case_def)
  moreover have "t @ str '' cubic feet'' = (t @ str '' '') @ str ''cubic'' @ str '' feet''"
    by (simp add: str_def)
  ultimately show ?thesis
    unfolding contains_unit_token_def by blast
qed

lemma ensureUnits_idem: "ensureUnits (ensureUnits s) = ensureUnits s"
proof -
  let ?t = "trim s"
  consider (unit) "contains_unit_token ?t"
    | (digit) "\<not> contains_unit_token ?t" "\<exists>u \<in> set ?t. is_digit u"
    | (other) "\<not> contains_unit_token ?t" "\<not> (\<exists>u \<in> set ?t. is_digit u)"
    by blast
  then show ?thesis
  proof cases
    case unit
    then show ?thesis by (simp add: ensureUnits_cases trim_trim)
  next
    case digit
    then have ne: "?t \<noteq> []" by auto
    then have "\<not> is_space (hd ?t)" by (rule trim_ends)
    with ne have "trim (?t @ str '' cubic feet'') = ?t @ str '' cubic feet''"
      by (rule suffix_trimmed)
    moreover have "ensureUnits s = ?t @ str '' cubic feet''"
      using digit by (simp add: ensureUnits_cases)
    ultimately show ?thesis
      by (simp add: ensureUnits_cases [of "?t @ str '' cubic feet''"] suffix_has_unit)
  next
    case other
    then show ?thesis by (simp add: ensureUnits_cases trim_trim)
  qed
qed



lemmas ensureUnits_eval =
  ensureUnits_def str_def trim_def is_space_def is_digit_def units_re_def number_re_def
  digit_re_def canonicalize_def

text \<open>
  C1 (amended). \<open>ensureUnits\<close> first removes leading and trailing white space, and then
  splits three ways on the trimmed string: if it contains a unit token (\<open>cubic\<close>, \<open>feet\<close>,
  \<open>cu\<close> and \<open>ft\<close> or \<open>ft\<close> and SUPERSCRIPT THREE with at most one white space between
  them, in either case) the trimmed string is returned; otherwise, if it contains a decimal
  digit anywhere (a purely numeric string, or a digit mixed with other text) the suffix
  \<open>" cubic feet"\<close> is appended to it; otherwise the trimmed string is returned.
\<close>

theorem ensureUnits_case_split:
  "ensureUnits s =
     (if contains_unit_token (trim s) then trim s
      else if (\<exists>u \<in> set (trim s). is_digit u) then trim s @ str '' cubic feet''
      else trim s)"
proof (cases "test units_re (trim s)")
  case True
  then show ?thesis
    by (simp add: ensureUnits_def test_units_re)
next
  case no_unit: False
  show ?thesis
  proof (cases "test digit_re (trim s)")
    case True
    with no_unit show ?thesis
      by (simp add: ensureUnits_def test_units_re [symmetric] test_digit_re [symmetric])
  next
    case False
    then have "\<not> test number_re (trim s)"
      using test_number_re_digit [of "trim s"] by (auto simp: test_digit_re)
    with no_unit False show ?thesis
      by (simp add: ensureUnits_def test_units_re [symmetric] test_digit_re [symmetric])
  qed
qed

theorem ensureUnits_case_split_witness:
  "ensureUnits (str ''  2.5 '') = str ''2.5 cubic feet''
   \<and> ensureUnits (str ''approx. 85.5 Cu Ft'') = str ''approx. 85.5 Cu Ft''
   \<and> ensureUnits (str '' variable'') = str ''variable''"
proof -
  have a: "\<not> contains_unit_token (trim (str ''  2.5 ''))"
    unfolding test_units_re [symmetric] by (simp add: ensureUnits_eval)
  have b: "contains_unit_token (trim (str ''approx. 85.5 Cu Ft''))"
    unfolding test_units_re [symmetric] by (simp add: ensureUnits_eval)
  have c: "\<not> contains_unit_token (trim (str '' variable''))"
    unfolding test_units_re [symmetric] by (simp add: ensureUnits_eval)
  show ?thesis
    using a b c ensureUnits_case_split [of "str ''  2.5 ''"]
      ensureUnits_case_split [of "str ''approx. 85.5 Cu Ft''"]
      ensureUnits_case_split [of "str '' variable''"]
    by (simp add: str_def trim_def is_space_def is_digit_def)
qed

text \<open>
  The claim as written fails on a digit mixed with other text: \<open>"about 12"\<close> has no unit
  token and is not purely numeric, and it comes back with the suffix appended.
\<close>

theorem ensureUnits_digit_in_text_counterexample:
  "\<not> contains_unit_token (str ''about 12'')
   \<and> \<not> test number_re (str ''about 12'')
   \<and> ensureUnits (str ''about 12'') = str ''about 12 cubic feet''
   \<and> ensureUnits (str ''about 12'') \<noteq> str ''about 12''"
proof -
  have "\<not> test units_re (str ''about 12'')"
    by (simp add: ensureUnits_eval)
  then have "\<not> contains_unit_token (str ''about 12'')"
    by (simp add: test_units_re)
  moreover have "\<not> test number_re (str ''about 12'')"
    by (simp add: ensureUnits_eval)
  moreover have "ensureUnits (str ''about 12'') = str ''about 12 cubic feet''"
    by (simp add: ensureUnits_eval)
  ultimately show ?thesis
    by (simp add: str_def)
qed

text \<open>
  C7 (amended). Normalizing a unit-bearing size string returns it with its leading and
  trailing white space removed (so unchanged when it has none); normalizing \<open>"12"\<close> yields
  \<open>"12 cubic feet"\<close>; normalizing \<open>"12 cubic feet"\<close> yields \<open>"12 cubic feet"\<close>; and
  normalizing twice is normalizing once, for every size string.
\<close>

theorem ensureUnits_idempotent:
  "(contains_unit_token s \<longrightarrow> ensureUnits s = trim s)
   \<and> ensureUnits (str ''12'') = str ''12 cubic feet''
   \<and> ensureUnits (str ''12 cubic feet'') = str ''12 cubic feet''
   \<and> ensureUnits (ensureUnits s) = ensureUnits s"
proof (intro conjI impI)
  assume "contains_unit_token s"
  then have "contains_unit_token (trim s)"
    by (rule contains_unit_token_trim)
  then show "ensureUnits s = trim s"
    by (simp add: ensureUnits_cases)
next
  show "ensureUnits (str ''12'') = str ''12 cubic feet''"
    by (simp add: ensureUnits_eval)
next
  show "ensureUnits (str ''12 cubic feet'') = str ''12 cubic feet''"
    by (simp add: ensureUnits_eval)
next
  show "ensureUnits (ensureUnits s) = ensureUnits s"
    by (rule ensureUnits_idem)
qed

theorem ensureUnits_idempotent_witness:
  "contains_unit_token (str ''approx. 3 cu ft  '')
   \<and> ensureUnits (str ''approx. 3 cu ft  '') = str ''approx. 3 cu ft''
   \<and> ensureUnits (ensureUnits (str ''approx. 3 cu ft  '')) = ensureUnits (str ''approx. 3 cu ft  '')"
proof -
  have "test units_re (str ''approx. 3 cu ft  '')"
    by (simp add: ensureUnits_eval)
  then have u: "contains_unit_token (str ''approx. 3 cu ft  '')"
    by (simp only: test_units_re)
  have t: "trim (str ''approx. 3 cu ft  '') = str ''approx. 3 cu ft''"
    by (simp add: str_def trim_def is_space_def)
  from ensureUnits_idempotent [of "str ''approx. 3 cu ft  ''"]
  have "contains_unit_token (str ''approx. 3 cu ft  '')
          \<longrightarrow> ensureUnits (str ''approx. 3 cu ft  '') = trim (str ''approx. 3 cu ft  '')"
    and "ensureUnits (ensureUnits (str ''approx. 3 cu ft  '')) = ensureUnits (str ''approx. 3 cu ft  '')"
    by blast+
  with u t show ?thesis
    by (simp only: simp_thms)
qed

text \<open>
  The claim as written fails on a unit-bearing string with white space around it: it is
  not returned unchanged.
\<close>

theorem ensureUnits_unchanged_counterexample:
  "contains_unit_token (str '' 5 cu ft'')
   \<and> ensureUnits (str '' 5 cu ft'') = str ''5 cu ft''
   \<and> ensureUnits (str '' 5 cu ft'') \<noteq> str '' 5 cu ft''"
proof -
  have "test units_re (str '' 5 cu ft'')"
    by (simp add: ensureUnits_eval)
  then have "contains_unit_token (str '' 5 cu ft'')"
    by (simp only: test_units_re)
  moreover have "ensureUnits (str '' 5 cu ft'') = str ''5 cu ft''"
    by (simp add: ensureUnits_eval)
  ultimately show ?thesis
    by (simp add: str_def)
qed




section \<open>generateInventoryFromDescription: failures and the frame of post-processing\<close>

lemma not_truthy: "\<not> truthy v \<longleftrightarrow> absent_or_falsy v"
  by (cases v rule: truthy.cases) (simp_all add: absent_or_falsy_def)

lemma those_None: "those ys = None \<longleftrightarrow> None \<in> set ys"
  by (induction ys) (auto split: option.splits)

lemma those_map_Some:
  "those (map f xs) = Some ys \<Longrightarrow>
     length ys = length xs \<and> (\<forall>i < length xs. f (xs ! i) = Some (ys ! i))"
proof (induction xs arbitrary: ys)
  case Nil
  then show ?case by simp
next
  case (Cons x xs)
  then obtain y ys' where y: "f x = Some y" and r: "those (map f xs) = Some ys'"
    and ys: "ys = y # ys'"
    by (auto split: option.splits)
  from Cons.IH [OF r] have l: "length ys' = length xs"
    and n: "\<And>i. i < length xs \<Longrightarrow> f (xs ! i) = Some (ys' ! i)"
    by simp_all
  show ?case
  proof (intro conjI allI impI)
    show "length ys = length (x # xs)" using l ys by simp
    fix i assume "i < length (x # xs)"
    then show "f ((x # xs) ! i) = Some (ys ! i)"
      using y n ys by (cases i) simp_all
  qed
qed


lemma to_string_array_None:
  "to_string (JArr xs) = None \<longleftrightarrow> (\<exists>x \<in> set xs. x \<noteq> JNull \<and> to_string x = None)"
proof -
  have "to_string (JArr xs) = None \<longleftrightarrow>
          None \<in> set (map (\<lambda>x. if x = JNull then Some [] else to_string x) xs)"
    by (simp add: to_string.simps(5) those_None)
  also have "\<dots> \<longleftrightarrow> (\<exists>x \<in> set xs. (if x = JNull then Some [] else to_string x) = None)"
    unfolding set_map image_iff by (rule bex_cong [OF refl]) (rule eq_commute)
  also have "\<dots> \<longleftrightarrow> (\<exists>x \<in> set xs. x \<noteq> JNull \<and> to_string x = None)"
    by (rule bex_cong [OF refl]) simp
  finally show ?thesis .
qed


lemma to_string_None: "to_string v = None \<longleftrightarrow> unprintable v"
proof (induction v rule: to_string.induct)
  case (5 xs)
  have "(\<exists>x \<in> set xs. x \<noteq> JNull \<and> to_string x = None)
        \<longleftrightarrow> (\<exists>x \<in> set xs. x \<noteq> JNull \<and> unprintable x)"
  proof (rule bex_cong [OF refl])
    fix x assume "x \<in> set xs"
    then show "(x \<noteq> JNull \<and> to_string x = None) = (x \<noteq> JNull \<and> unprintable x)"
      using 5 [of x] by (cases "x = JNull") simp_all
  qed
  also have "\<dots> \<longleftrightarrow> (\<exists>x \<in> set xs. unprintable x)"
    by (rule bex_cong [OF refl]) auto
  finally show ?case
    by (simp add: to_string_array_None)
qed simp_all

lemma js_String_None: "js_String v = None \<longleftrightarrow> (\<exists>x. v = Some x \<and> unprintable x)"
  by (cases v) (simp_all add: to_string_None)

lemma post_process_item_None:
  "post_process_item item = None \<longleftrightarrow>
     item = JNull \<or> (\<exists>x. field item (str ''estimatedSize'') = Some x \<and> unprintable x)"
proof -
  have "post_process_item item = None \<longleftrightarrow>
          item = JNull \<or> js_String (field item (str ''estimatedSize'')) = None"
    by (cases "js_String (field item (str ''estimatedSize''))")
       (simp_all add: post_process_item_def ensureUnits_value_def)
  then show ?thesis
    by (simp only: js_String_None)
qed


lemma invalid_not_object: "\<forall>fs. v \<noteq> JObj fs \<Longrightarrow> invalid_response v"
  by (cases v) (simp_all add: invalid_response_def absent_or_falsy_def)

lemma generate_try_not_object:
  "\<forall>fs. v \<noteq> JObj fs \<Longrightarrow> isl (generate_try (TextParsed v))"
  by (cases v) (simp_all add: generate_try_def)

lemma generate_try_object:
  "generate_try (TextParsed (JObj fs)) =
    (if \<not> truthy (map_of fs (str ''inventory''))
        \<or> \<not> truthy (map_of fs (str ''transcript''))
        \<or> \<not> truthy (map_of fs (str ''totalEstimatedSize''))
     then Inl (ErrorObject (str ''AI response is missing required fields.''))
     else
      (case ensureUnits_value (map_of fs (str ''totalEstimatedSize'')) of
         None \<Rightarrow> Inl type_error
       | Some total_size \<Rightarrow>
          (case map_of fs (str ''inventory'') of
             Some (JArr items) \<Rightarrow>
               (case those (map post_process_item items) of
                  None \<Rightarrow> Inl type_error
                | Some new_items \<Rightarrow>
                    Inr (AList.update (str ''inventory'') (JArr new_items)
                          (AList.update (str ''totalEstimatedSize'') (JStr total_size) fs)))
           | _ \<Rightarrow> Inl type_error)))"
  by (simp only: generate_try_def ServiceOutcome.case json.case)

lemma generate_try_fails:
  "isl (generate_try (TextParsed v)) \<longleftrightarrow> invalid_response v"
proof (cases "\<exists>fs. v = JObj fs")
  case False
  then show ?thesis
    by (simp add: invalid_not_object generate_try_not_object)
next
  case True
  then obtain fs where v: "v = JObj fs" by blast
  let ?inv = "map_of fs (str ''inventory'')"
  let ?tr = "map_of fs (str ''transcript'')"
  let ?tot = "map_of fs (str ''totalEstimatedSize'')"
  show ?thesis
  proof (cases "truthy ?inv \<and> truthy ?tr \<and> truthy ?tot")
    case False
    then have g: "\<not> truthy ?inv \<or> \<not> truthy ?tr \<or> \<not> truthy ?tot" by blast
    then have "isl (generate_try (TextParsed v))"
      unfolding v generate_try_object by (simp only: if_True sum.disc)
    moreover from g have "invalid_response v"
      unfolding v invalid_response_def field.simps not_truthy by blast
    ultimately show ?thesis by simp
  next
    case guard: True
    then have g: "\<not> (\<not> truthy ?inv \<or> \<not> truthy ?tr \<or> \<not> truthy ?tot)" by blast
    from guard have ok: "\<not> absent_or_falsy ?inv" "\<not> absent_or_falsy ?tr"
      "\<not> absent_or_falsy ?tot"
      by (simp_all add: not_truthy [symmetric])
    show ?thesis
    proof (cases "js_String ?tot")
      case None
      then have "isl (generate_try (TextParsed v))"
        unfolding v generate_try_object by (simp add: g ensureUnits_value_def)
      moreover from None have "\<exists>x. ?tot = Some x \<and> unprintable x"
        by (simp only: js_String_None)
      then have "invalid_response v"
        unfolding v invalid_response_def field.simps by blast
      ultimately show ?thesis by simp
    next
      case (Some t)
      then have printable: "\<not> (\<exists>x. ?tot = Some x \<and> unprintable x)"
        using js_String_None [of ?tot] by simp
      show ?thesis
      proof (cases "\<exists>items. ?inv = Some (JArr items)")
        case False
        then have "(case ?inv of Some (JArr items) \<Rightarrow> f items | _ \<Rightarrow> Inl type_error)
                   = Inl type_error" for f :: "json list \<Rightarrow> Thrown + jsobject"
          by (simp split: option.splits json.splits)
        then have "isl (generate_try (TextParsed v))"
          unfolding v generate_try_object by (simp add: g ensureUnits_value_def Some)
        moreover from False have "invalid_response v"
          unfolding v invalid_response_def field.simps by blast
        ultimately show ?thesis by simp
      next
        case True
        then obtain items where items: "?inv = Some (JArr items)" by blast
        have fails: "isl (generate_try (TextParsed v))
                     \<longleftrightarrow> those (map post_process_item items) = None"
          unfolding v generate_try_object
          using guard
          by (cases "those (map post_process_item items)")
             (simp_all add: ensureUnits_value_def Some items)
        have "those (map post_process_item items) = None
              \<longleftrightarrow> (\<exists>item \<in> set items. post_process_item item = None)"
          unfolding those_None set_map image_iff
          by (rule bex_cong [OF refl]) (rule eq_commute)
        also have "\<dots> \<longleftrightarrow> (\<exists>item \<in> set items. item = JNull
                     \<or> (\<exists>x. field item (str ''estimatedSize'') = Some x \<and> unprintable x))"
          by (simp only: post_process_item_None)
        also have "\<dots> \<longleftrightarrow> invalid_response v"
          unfolding v invalid_response_def field.simps
          using ok printable items by auto
        finally show ?thesis
          using fails by simp
      qed
    qed
  qed
qed


lemma valid_when_generated:
  "generateInventoryFromDescription (TextParsed v) = Inr r \<Longrightarrow> \<not> invalid_response v"
  by (cases "generate_try (TextParsed v)")
     (simp_all add: generateInventoryFromDescription_def generate_try_fails [symmetric])

lemma generate_Inl_iff:
  "generateInventoryFromDescription outcome = Inl e
   \<longleftrightarrow> e = generation_failure \<and> isl (generate_try outcome)"
  by (cases "generate_try outcome")
     (auto simp: generateInventoryFromDescription_def)

lemmas generate_eval =
  generateInventoryFromDescription_def generate_try_def ensureUnits_value_def
  post_process_item_def to_string.simps(5) str_def

text \<open>
  C5 (amended). \<open>generateInventoryFromDescription\<close> fails exactly when the service call
  is rejected, or the response text cannot be parsed, or the parsed response is invalid:
  one of the fields \<open>inventory\<close>, \<open>transcript\<close>, \<open>totalEstimatedSize\<close> is absent or
  falsy (\<open>null\<close>, \<open>false\<close>, \<open>0\<close> or the empty string; every field is absent when the
  parsed value is no object), or \<open>inventory\<close> is no array, or an item of \<open>inventory\<close> is
  \<open>null\<close>, or \<open>totalEstimatedSize\<close> or the \<open>estimatedSize\<close> of an item cannot be
  converted to a string. Every failure is the one fixed error with the user-facing message,
  and a failure carries no inventory data.
\<close>

theorem generation_fails_exactly:
  "generateInventoryFromDescription outcome = Inl e \<longleftrightarrow>
     e = generation_failure
     \<and> ((\<exists>t. outcome = CallRejected t) \<or> (\<exists>t. outcome = TextUnparseable t)
        \<or> (\<exists>v. outcome = TextParsed v \<and> invalid_response v))"
proof (cases outcome)
  case (CallRejected t)
  then show ?thesis by (simp add: generate_Inl_iff generate_try_def)
next
  case (TextUnparseable t)
  then show ?thesis by (simp add: generate_Inl_iff generate_try_def)
next
  case (TextParsed v)
  then show ?thesis by (simp add: generate_Inl_iff generate_try_fails)
qed

theorem generation_fails_exactly_witness:
  "generateInventoryFromDescription (CallRejected OtherValue) = Inl generation_failure
   \<and> generateInventoryFromDescription (TextParsed JNull) = Inl generation_failure
   \<and> generateInventoryFromDescription
        (TextParsed (JObj [(str ''transcript'', JStr (str ''A bed.'')),
                           (str ''totalEstimatedSize'', JStr (str ''70 cu ft''))]))
      = Inl generation_failure"
proof -
  have "invalid_response JNull"
    by (simp add: invalid_response_def absent_or_falsy_def)
  moreover have "invalid_response
        (JObj [(str ''transcript'', JStr (str ''A bed.'')),
               (str ''totalEstimatedSize'', JStr (str ''70 cu ft''))])"
    by (simp add: invalid_response_def absent_or_falsy_def str_def)
  ultimately show ?thesis
    using generation_fails_exactly [of "CallRejected OtherValue" generation_failure]
      generation_fails_exactly [of "TextParsed JNull" generation_failure]
      generation_fails_exactly
        [of "TextParsed (JObj [(str ''transcript'', JStr (str ''A bed.'')),
                               (str ''totalEstimatedSize'', JStr (str ''70 cu ft''))])"
            generation_failure]
    by simp
qed

text \<open>
  The claim as written fails on responses whose three fields are all present. The
  generation fails with an empty transcript, with the number \<open>0\<close> for
  \<open>totalEstimatedSize\<close>, with an object for \<open>inventory\<close>, with a \<open>null\<close> item, and
  with a \<open>totalEstimatedSize\<close> or an \<open>estimatedSize\<close> that \<open>String\<close> cannot print.
\<close>

theorem present_fields_counterexample:
  "field (JObj [(str ''inventory'', JArr []), (str ''transcript'', JStr []),
                (str ''totalEstimatedSize'', JStr (str ''0 cubic feet''))])
         (str ''transcript'') = Some (JStr [])
   \<and> generateInventoryFromDescription
        (TextParsed (JObj [(str ''inventory'', JArr []), (str ''transcript'', JStr []),
                           (str ''totalEstimatedSize'', JStr (str ''0 cubic feet''))]))
      = Inl generation_failure
   \<and> generateInventoryFromDescription
        (TextParsed (JObj [(str ''inventory'', JArr []),
                           (str ''transcript'', JStr (str ''A sofa.'')),
                           (str ''totalEstimatedSize'', JNum (str ''0''))]))
      = Inl generation_failure
   \<and> generateInventoryFromDescription
        (TextParsed (JObj [(str ''inventory'', JObj []),
                           (str ''transcript'', JStr (str ''A sofa.'')),
                           (str ''totalEstimatedSize'', JStr (str ''50 cu ft''))]))
      = Inl generation_failure
   \<and> generateInventoryFromDescription
        (TextParsed (JObj [(str ''inventory'', JArr [JNull]),
                           (str ''transcript'', JStr (str ''A sofa.'')),
                           (str ''totalEstimatedSize'', JStr (str ''50 cu ft''))]))
      = Inl generation_failure
   \<and> generateInventoryFromDescription
        (TextParsed (JObj [(str ''inventory'', JArr []),
                           (str ''transcript'', JStr (str ''A sofa.'')),
                           (str ''totalEstimatedSize'',
                              JObj [(str ''toString'', JNum (str ''1''))])]))
      = Inl generation_failure
   \<and> generateInventoryFromDescription
        (TextParsed (JObj [(str ''inventory'',
                              JArr [JObj [(str ''estimatedSize'',
                                             JArr [JObj [(str ''toString'', JNull)]])]]),
                           (str ''transcript'', JStr (str ''A sofa.'')),
                           (str ''totalEstimatedSize'', JStr (str ''50 cu ft''))]))
      = Inl generation_failure"
  by (simp add: generate_eval)

lemma generate_success:
  assumes "generateInventoryFromDescription (TextParsed v) = Inr r"
  obtains parsedData total_size items new_items where
    "v = JObj parsedData"
    "map_of parsedData (str ''inventory'') = Some (JArr items)"
    "those (map post_process_item items) = Some new_items"
    "r = AList.update (str ''inventory'') (JArr new_items)
           (AList.update (str ''totalEstimatedSize'') (JStr total_size) parsedData)"
proof -
  from assms have ok: "generate_try (TextParsed v) = Inr r"
    by (cases "generate_try (TextParsed v)")
       (simp_all add: generateInventoryFromDescription_def)
  then have "\<not> isl (generate_try (TextParsed v))" by simp
  then obtain fs where v: "v = JObj fs"
    using generate_try_not_object [of v] by blast
  from ok [unfolded v generate_try_object]
  obtain total_size items new_items where
    "map_of fs (str ''inventory'') = Some (JArr items)"
    "those (map post_process_item items) = Some new_items"
    "r = AList.update (str ''inventory'') (JArr new_items)
           (AList.update (str ''totalEstimatedSize'') (JStr total_size) fs)"
    by (simp split: if_splits option.splits json.splits) blast
  with v that show thesis by blast
qed

lemma post_process_item_frame:
  assumes "post_process_item item = Some new_item" "k \<noteq> str ''estimatedSize''"
  shows "map_of (own_props new_item) k = map_of (own_props item) k"
proof -
  from assms(1) obtain sz where
    "new_item = JObj (AList.update (str ''estimatedSize'') (JStr sz) (own_props item))"
    by (auto simp: post_process_item_def split: if_splits option.splits)
  with assms(2) show ?thesis
    by (simp add: update_conv')
qed

lemma post_process_items_frame:
  assumes "those (map post_process_item items) = Some new_items"
    "k \<noteq> str ''estimatedSize''"
  shows "map (\<lambda>item. map_of (own_props item) k) new_items
         = map (\<lambda>item. map_of (own_props item) k) items"
proof (rule nth_equalityI)
  from those_map_Some [OF assms(1)]
  have l: "length new_items = length items"
    and n: "\<And>i. i < length items \<Longrightarrow> post_process_item (items ! i) = Some (new_items ! i)"
    by simp_all
  from l show "length (map (\<lambda>item. map_of (own_props item) k) new_items)
               = length (map (\<lambda>item. map_of (own_props item) k) items)" by simp
  fix i assume "i < length (map (\<lambda>item. map_of (own_props item) k) new_items)"
  with l have i: "i < length items" by simp
  from post_process_item_frame [OF n [OF i] assms(2)] i l
  show "map (\<lambda>item. map_of (own_props item) k) new_items ! i
        = map (\<lambda>item. map_of (own_props item) k) items ! i"
    by simp
qed

lemma key_distinct:
  "str ''name'' \<noteq> str ''estimatedSize''" "str ''count'' \<noteq> str ''estimatedSize''"
  "str ''description'' \<noteq> str ''estimatedSize''" "str ''tags'' \<noteq> str ''estimatedSize''"
  "str ''transcript'' \<noteq> str ''inventory''" "str ''transcript'' \<noteq> str ''totalEstimatedSize''"
  by (simp_all add: str_def)

text \<open>
  C10. On a successful generation the post-processing changes only \<open>estimatedSize\<close> of
  each item and \<open>totalEstimatedSize\<close>: the result has the transcript of the parsed
  response (and every other property of it but those two), as many items in the same
  order, and each item keeps its name, count, description and tags (and every other
  property but \<open>estimatedSize\<close>).
\<close>

theorem post_processing_frame:
  assumes "generateInventoryFromDescription (TextParsed v) = Inr r"
  shows "\<exists>parsedData items new_items.
           v = JObj parsedData
         \<and> map_of parsedData (str ''inventory'') = Some (JArr items)
         \<and> map_of r (str ''inventory'') = Some (JArr new_items)
         \<and> map_of r (str ''transcript'') = map_of parsedData (str ''transcript'')
         \<and> truthy (map_of r (str ''transcript''))
         \<and> (\<forall>k. k \<noteq> str ''inventory'' \<and> k \<noteq> str ''totalEstimatedSize''
                \<longrightarrow> map_of r k = map_of parsedData k)
         \<and> length new_items = length items
         \<and> map (\<lambda>item. map_of (own_props item) (str ''name'')) new_items
             = map (\<lambda>item. map_of (own_props item) (str ''name'')) items
         \<and> map (\<lambda>item. map_of (own_props item) (str ''count'')) new_items
             = map (\<lambda>item. map_of (own_props item) (str ''count'')) items
         \<and> map (\<lambda>item. map_of (own_props item) (str ''description'')) new_items
             = map (\<lambda>item. map_of (own_props item) (str ''description'')) items
         \<and> map (\<lambda>item. map_of (own_props item) (str ''tags'')) new_items
             = map (\<lambda>item. map_of (own_props item) (str ''tags'')) items
         \<and> (\<forall>k. k \<noteq> str ''estimatedSize''
                \<longrightarrow> map (\<lambda>item. map_of (own_props item) k) new_items
                    = map (\<lambda>item. map_of (own_props item) k) items)"
proof -
  from assms obtain parsedData total_size items new_items where
    v: "v = JObj parsedData"
    and inv: "map_of parsedData (str ''inventory'') = Some (JArr items)"
    and new: "those (map post_process_item items) = Some new_items"
    and r: "r = AList.update (str ''inventory'') (JArr new_items)
           (AList.update (str ''totalEstimatedSize'') (JStr total_size) parsedData)"
    by (rule generate_success)
  have other: "map_of r k = map_of parsedData k"
    if "k \<noteq> str ''inventory'' \<and> k \<noteq> str ''totalEstimatedSize''" for k
    using that by (simp add: r update_conv')
  have tr: "map_of r (str ''transcript'') = map_of parsedData (str ''transcript'')"
    by (rule other) (simp add: key_distinct)
  from assms have "\<not> invalid_response v"
    using valid_when_generated [of v] by simp
  then have "truthy (map_of parsedData (str ''transcript''))"
    by (simp add: invalid_response_def v not_truthy [symmetric])
  with tr have t: "truthy (map_of r (str ''transcript''))" by simp
  have len: "length new_items = length items"
    using those_map_Some [OF new] by simp
  have items: "map (\<lambda>item. map_of (own_props item) k) new_items
               = map (\<lambda>item. map_of (own_props item) k) items"
    if "k \<noteq> str ''estimatedSize''" for k
    using new that by (rule post_process_items_frame)
  have "map_of r (str ''inventory'') = Some (JArr new_items)"
    by (simp add: r update_conv')
  with v inv tr t other len items [OF key_distinct(1)] items [OF key_distinct(2)]
    items [OF key_distinct(3)] items [OF key_distinct(4)] items
  show ?thesis by blast
qed


theorem post_processing_frame_witness:
  "generateInventoryFromDescription
     (TextParsed (JObj
        [(str ''inventory'', JArr
            [JObj [(str ''name'', JStr (str ''Queen bed'')), (str ''count'', JNum (str ''1'')),
                   (str ''description'', JStr (str ''Wooden frame'')),
                   (str ''tags'', JArr [JStr (str ''Bedroom'')]),
                   (str ''estimatedSize'', JNum (str ''70''))],
             JObj [(str ''name'', JStr (str ''Nightstand'')), (str ''count'', JNum (str ''2'')),
                   (str ''description'', JStr (str ''Oak'')),
                   (str ''tags'', JArr [JStr (str ''Bedroom''), JStr (str ''Furniture'')]),
                   (str ''estimatedSize'', JStr (str ''5 cu ft''))]]),
         (str ''transcript'', JStr (str ''A bed and two nightstands.'')),
         (str ''totalEstimatedSize'', JStr (str ''80''))]))
   = Inr
        [(str ''inventory'', JArr
            [JObj [(str ''name'', JStr (str ''Queen bed'')), (str ''count'', JNum (str ''1'')),
                   (str ''description'', JStr (str ''Wooden frame'')),
                   (str ''tags'', JArr [JStr (str ''Bedroom'')]),
                   (str ''estimatedSize'', JStr (str ''70 cubic feet''))],
             JObj [(str ''name'', JStr (str ''Nightstand'')), (str ''count'', JNum (str ''2'')),
                   (str ''description'', JStr (str ''Oak'')),
                   (str ''tags'', JArr [JStr (str ''Bedroom''), JStr (str ''Furniture'')]),
                   (str ''estimatedSize'', JStr (str ''5 cu ft''))]]),
         (str ''transcript'', JStr (str ''A bed and two nightstands.'')),
         (str ''totalEstimatedSize'', JStr (str ''80 cubic feet''))]"
proof -
  let ?v = "JObj
        [(str ''inventory'', JArr
            [JObj [(str ''name'', JStr (str ''Queen bed'')), (str ''count'', JNum (str ''1'')),
                   (str ''description'', JStr (str ''Wooden frame'')),
                   (str ''tags'', JArr [JStr (str ''Bedroom'')]),
                   (str ''estimatedSize'', JNum (str ''70''))],
             JObj [(str ''name'', JStr (str ''Nightstand'')), (str ''count'', JNum (str ''2'')),
                   (str ''description'', JStr (str ''Oak'')),
                   (str ''tags'', JArr [JStr (str ''Bedroom''), JStr (str ''Furniture'')]),
                   (str ''estimatedSize'', JStr (str ''5 cu ft''))]]),
         (str ''transcript'', JStr (str ''A bed and two nightstands.'')),
         (str ''totalEstimatedSize'', JStr (str ''80''))]"
  have a: "ensureUnits (str ''70'') = str ''70 cubic feet''"
    by (simp add: ensureUnits_eval)
  have b: "ensureUnits (str ''5 cu ft'') = str ''5 cu ft''"
    by (simp add: ensureUnits_eval)
  have c: "ensureUnits (str ''80'') = str ''80 cubic feet''"
    by (simp add: ensureUnits_eval)
  have run: "generateInventoryFromDescription (TextParsed ?v) = Inr
        [(str ''inventory'', JArr
            [JObj [(str ''name'', JStr (str ''Queen bed'')), (str ''count'', JNum (str ''1'')),
                   (str ''description'', JStr (str ''Wooden frame'')),
                   (str ''tags'', JArr [JStr (str ''Bedroom'')]),
                   (str ''estimatedSize'', JStr (str ''70 cubic feet''))],
             JObj [(str ''name'', JStr (str ''Nightstand'')), (str ''count'', JNum (str ''2'')),
                   (str ''description'', JStr (str ''Oak'')),
                   (str ''tags'', JArr [JStr (str ''Bedroom''), JStr (str ''Furniture'')]),
                   (str ''estimatedSize'', JStr (str ''5 cu ft''))]]),
         (str ''transcript'', JStr (str ''A bed and two nightstands.'')),
         (str ''totalEstimatedSize'', JStr (str ''80 cubic feet''))]"
    using a b c
    by (simp add: generate_eval)
  from post_processing_frame [OF run] run show ?thesis
    by simp
qed



section \<open>The state machine: submission, settling and resets\<close>

lemmas handler_defs =
  handleSubmit_begin_def handleSubmit_settle_def handleResetToIdle_def handleSaveInventory_def
  handleDeleteInventory_def handleViewInventory_def onDone_def handleFileChange_def
  handleCaptureComplete_def processVideoFile_begin_def processVideoFile_settle_def
  form_submit_def

lemma active_only_shown_mounted: "active_only_shown (mounted st)"
  by (simp add: active_only_shown_def mounted_def split: prod.splits)

lemma generate_Inl: "generateInventoryFromDescription outcome = Inl e \<Longrightarrow> e = generation_failure"
  by (simp add: generate_Inl_iff)

lemma active_only_shown_step:
  assumes "active_only_shown s"
  shows "active_only_shown (step s e)"
proof (cases e)
  case (SaveClicked x t1 t2 w)
  with assms show ?thesis
    by (auto simp: active_only_shown_def handleSaveInventory_def split: prod.splits sum.splits)
next
  case (DeleteClicked i w)
  with assms show ?thesis
    by (auto simp: active_only_shown_def handleDeleteInventory_def Let_def
             split: prod.splits option.splits)
next
  case (GenerationSettled outcome)
  with assms show ?thesis
    by (auto simp: active_only_shown_def handleSubmit_settle_def split: sum.splits)
next
  case (VideoSettled r)
  with assms show ?thesis
    by (auto simp: active_only_shown_def processVideoFile_settle_def split: sum.splits)
next
  case DoneClicked
  with assms show ?thesis
    by (auto simp: active_only_shown_def onDone_def handleResetToIdle_def
             split: option.splits)
qed (use assms in \<open>auto simp: active_only_shown_def handler_defs split: option.splits\<close>)

lemma active_only_shown_run: "active_only_shown s \<Longrightarrow> active_only_shown (run s events)"
  unfolding run_def
  by (induction events arbitrary: s) (simp_all add: active_only_shown_step)

lemma reset_clears:
  assumes "view s \<noteq> IDLE" "view s \<noteq> CAPTURING_VIDEO" "view (step s e) = IDLE"
  shows "step s e = handleResetToIdle s"
proof (cases e)
  case (SaveClicked x t1 t2 w)
  with assms show ?thesis
    by (auto simp: handleSaveInventory_def split: prod.splits sum.splits if_splits)
next
  case (DeleteClicked i w)
  with assms show ?thesis
    by (auto simp: handleDeleteInventory_def Let_def
             split: prod.splits option.splits if_splits)
next
  case (GenerationSettled outcome)
  with assms show ?thesis
    by (auto simp: handleSubmit_settle_def split: sum.splits if_splits)
next
  case (VideoSettled r)
  with assms show ?thesis
    by (auto simp: processVideoFile_settle_def split: sum.splits)
next
  case DoneClicked
  with assms show ?thesis
    by (auto simp: onDone_def handleResetToIdle_def split: option.splits if_splits)
qed (use assms in \<open>auto simp: handler_defs split: option.splits if_splits\<close>)


lemmas run_eval =
  run_def mounted_def getSavedInventories_def handler_defs saveInventory_def
  deleteInventoryById_def newest_first_def generateInventoryFromDescription_def
  generate_try_def ensureUnits_value_def post_process_item_def message_or_def
  generation_failure_def validation_message_def decimal_def Let_def




text \<open>
  C6. In any state the machine reaches with the processing view shown: when the generation
  call rejects, the settling moves to the error view with a non-empty error message and
  \<open>activeInventory\<close> is null there; when it succeeds, the settling moves to the result view
  with \<open>activeInventory\<close> the returned inventory data.
\<close>

theorem generation_settles:
  assumes "p = run (mounted st) events" "view p = PROCESSING"
  shows "(generateInventoryFromDescription outcome = Inl e \<longrightarrow>
            view (step p (GenerationSettled outcome)) = ERROR
            \<and> (\<exists>m. error (step p (GenerationSettled outcome)) = Some m \<and> m \<noteq> [])
            \<and> activeInventory (step p (GenerationSettled outcome)) = None)
         \<and> (generateInventoryFromDescription outcome = Inr r \<longrightarrow>
            view (step p (GenerationSettled outcome)) = SUCCESS
            \<and> activeInventory (step p (GenerationSettled outcome)) = Some (Generated r))"
proof -
  from assms(1) have "active_only_shown p"
    by (simp add: active_only_shown_run active_only_shown_mounted)
  with assms(2) have none: "activeInventory p = None"
    by (auto simp: active_only_shown_def)
  show ?thesis
  proof (intro conjI impI)
    assume f: "generateInventoryFromDescription outcome = Inl e"
    then have e: "e = generation_failure" by (rule generate_Inl)
    from f e assms(2) show "view (step p (GenerationSettled outcome)) = ERROR"
      by (simp add: handleSubmit_settle_def)
    from f e assms(2) none
    show "activeInventory (step p (GenerationSettled outcome)) = None"
      by (simp add: handleSubmit_settle_def)
    from f e assms(2)
    show "\<exists>m. error (step p (GenerationSettled outcome)) = Some m \<and> m \<noteq> []"
      by (simp add: handleSubmit_settle_def message_or_def generation_failure_def str_def)
  next
    assume "generateInventoryFromDescription outcome = Inr r"
    with assms(2) show "view (step p (GenerationSettled outcome)) = SUCCESS"
      and "activeInventory (step p (GenerationSettled outcome)) = Some (Generated r)"
      by (simp_all add: handleSubmit_settle_def)
  qed
qed

theorem generation_settles_witness:
  "view (run (mounted None) [DescriptionTyped (str ''a sofa''), FormSubmitted]) = PROCESSING
   \<and> view (step (run (mounted None) [DescriptionTyped (str ''a sofa''), FormSubmitted])
              (GenerationSettled (CallRejected OtherValue))) = ERROR
   \<and> activeInventory (step (run (mounted None) [DescriptionTyped (str ''a sofa''), FormSubmitted])
              (GenerationSettled (CallRejected OtherValue))) = None
   \<and> view (step (run (mounted None) [DescriptionTyped (str ''a sofa''), FormSubmitted])
              (GenerationSettled (TextParsed (JObj
                 [(str ''inventory'', JArr []), (str ''transcript'', JStr (str ''A sofa.'')),
                  (str ''totalEstimatedSize'', JStr (str ''50 cu ft''))])))) = SUCCESS
   \<and> activeInventory (step (run (mounted None) [DescriptionTyped (str ''a sofa''), FormSubmitted])
              (GenerationSettled (TextParsed (JObj
                 [(str ''inventory'', JArr []), (str ''transcript'', JStr (str ''A sofa.'')),
                  (str ''totalEstimatedSize'', JStr (str ''50 cu ft''))]))))
       = Some (Generated
                 [(str ''inventory'', JArr []), (str ''transcript'', JStr (str ''A sofa.'')),
                  (str ''totalEstimatedSize'', JStr (str ''50 cu ft''))])"
proof -
  let ?p = "run (mounted None) [DescriptionTyped (str ''a sofa''), FormSubmitted]"
  let ?ok = "TextParsed (JObj
                 [(str ''inventory'', JArr []), (str ''transcript'', JStr (str ''A sofa.'')),
                  (str ''totalEstimatedSize'', JStr (str ''50 cu ft''))])"
  let ?r = "[(str ''inventory'', JArr []), (str ''transcript'', JStr (str ''A sofa.'')),
             (str ''totalEstimatedSize'', JStr (str ''50 cu ft''))]"
  have u: "ensureUnits (str ''50 cu ft'') = str ''50 cu ft''"
    by (simp add: ensureUnits_eval)
  have n: "trim (str ''a sofa'') \<noteq> []" "str ''A sofa.'' \<noteq> []" "str ''50 cu ft'' \<noteq> []"
    by (simp_all add: str_def trim_def is_space_def)
  have v: "view ?p = PROCESSING"
    using n by (simp add: run_eval str_def)
  have bad: "generateInventoryFromDescription (CallRejected OtherValue) = Inl generation_failure"
    by (simp add: generateInventoryFromDescription_def generate_try_def)
  have good: "generateInventoryFromDescription ?ok = Inr ?r"
    using u by (simp add: generate_eval)
  from generation_settles [OF refl v, of "CallRejected OtherValue" generation_failure ?r]
    generation_settles [OF refl v, of ?ok generation_failure ?r] bad good v
  show ?thesis
    by simp
qed

text \<open>
  C2 (amended). In every state the machine reaches, \<open>activeInventory\<close> is non-null only
  in the result view or the list view (it stays set when the user saves from the result
  view, which leads to the list view). Every transition into the idle view from the result,
  error or list view is a full reset: it clears \<open>activeInventory\<close>, \<open>error\<close>, the
  description and the file name. The two transitions from the capture view back to the idle
  view are not: cancelling changes the view and nothing else, and the completion of a
  capture records the captured file's name, clears \<open>error\<close> and the description, and starts
  the processing of the video.
\<close>

theorem active_inventory_and_resets:
  "(activeInventory (run (mounted st) events) \<noteq> None \<longrightarrow>
      view (run (mounted st) events) = SUCCESS
      \<or> view (run (mounted st) events) = LIST_INVENTORIES)
   \<and> (view s \<noteq> IDLE \<and> view s \<noteq> CAPTURING_VIDEO \<and> view (step s e) = IDLE \<longrightarrow>
        activeInventory (step s e) = None \<and> error (step s e) = None
        \<and> App.description (step s e) = [] \<and> fileName (step s e) = None)
   \<and> (view s = CAPTURING_VIDEO \<longrightarrow> step s CaptureCancelled = s\<lparr> view := IDLE \<rparr>)
   \<and> (view s = CAPTURING_VIDEO \<longrightarrow>
        step s (CaptureCompleted file_name)
        = s\<lparr> view := IDLE, fileName := Some file_name, isProcessingVideo := True,
             error := None, description := [] \<rparr>)"
proof (intro conjI impI)
  assume "activeInventory (run (mounted st) events) \<noteq> None"
  with active_only_shown_run [OF active_only_shown_mounted, of st events]
  show "view (run (mounted st) events) = SUCCESS
        \<or> view (run (mounted st) events) = LIST_INVENTORIES"
    by (simp add: active_only_shown_def)
next
  assume a: "view s \<noteq> IDLE \<and> view s \<noteq> CAPTURING_VIDEO \<and> view (step s e) = IDLE"
  then have r: "step s e = handleResetToIdle s"
    by (intro reset_clears) simp_all
  show "activeInventory (step s e) = None" "error (step s e) = None"
    "App.description (step s e) = []" "fileName (step s e) = None"
    unfolding r by (simp_all add: handleResetToIdle_def)
next
  assume "view s = CAPTURING_VIDEO"
  then show "step s CaptureCancelled = s\<lparr> view := IDLE \<rparr>" by simp
next
  assume "view s = CAPTURING_VIDEO"
  then show "step s (CaptureCompleted file_name)
        = s\<lparr> view := IDLE, fileName := Some file_name, isProcessingVideo := True,
             error := None, description := [] \<rparr>"
    by (simp add: handleCaptureComplete_def processVideoFile_begin_def)
qed

theorem active_inventory_and_resets_witness:
  "activeInventory (run (mounted None)
      [DescriptionTyped (str ''a sofa''), FormSubmitted,
       GenerationSettled (TextParsed (JObj
         [(str ''inventory'', JArr []), (str ''transcript'', JStr (str ''A sofa.'')),
          (str ''totalEstimatedSize'', JStr (str ''50 cu ft''))]))]) \<noteq> None
   \<and> view (run (mounted None)
      [DescriptionTyped (str ''a sofa''), FormSubmitted,
       GenerationSettled (TextParsed (JObj
         [(str ''inventory'', JArr []), (str ''transcript'', JStr (str ''A sofa.'')),
          (str ''totalEstimatedSize'', JStr (str ''50 cu ft''))]))]) = SUCCESS
   \<and> view (step \<lparr> description = str ''a sofa'', view = ERROR, activeInventory = None,
                   savedInventories = [], error = Some (str ''failed''),
                   fileName = Some (str ''room.mp4''), isProcessingVideo = False,
                   localStorage = None \<rparr> TryAgainClicked) = IDLE
   \<and> error (step \<lparr> description = str ''a sofa'', view = ERROR, activeInventory = None,
                   savedInventories = [], error = Some (str ''failed''),
                   fileName = Some (str ''room.mp4''), isProcessingVideo = False,
                   localStorage = None \<rparr> TryAgainClicked) = None
   \<and> App.description (step \<lparr> description = str ''a sofa'', view = ERROR,
                   activeInventory = None,
                   savedInventories = [], error = Some (str ''failed''),
                   fileName = Some (str ''room.mp4''), isProcessingVideo = False,
                   localStorage = None \<rparr> TryAgainClicked) = []
   \<and> fileName (step \<lparr> description = str ''a sofa'', view = ERROR, activeInventory = None,
                   savedInventories = [], error = Some (str ''failed''),
                   fileName = Some (str ''room.mp4''), isProcessingVideo = False,
                   localStorage = None \<rparr> TryAgainClicked) = None
   \<and> step \<lparr> description = str ''a sofa'', view = CAPTURING_VIDEO, activeInventory = None,
             savedInventories = [], error = Some (str ''failed''), fileName = None,
             isProcessingVideo = False, localStorage = None \<rparr> CaptureCancelled
       = \<lparr> description = str ''a sofa'', view = IDLE, activeInventory = None,
           savedInventories = [], error = Some (str ''failed''), fileName = None,
           isProcessingVideo = False, localStorage = None \<rparr>
   \<and> step \<lparr> description = str ''a sofa'', view = CAPTURING_VIDEO, activeInventory = None,
             savedInventories = [], error = Some (str ''failed''), fileName = None,
             isProcessingVideo = False, localStorage = None \<rparr>
            (CaptureCompleted (str ''capture.webm''))
       = \<lparr> description = [], view = IDLE, activeInventory = None,
           savedInventories = [], error = None, fileName = Some (str ''capture.webm''),
           isProcessingVideo = True, localStorage = None \<rparr>"
proof -
  let ?evs = "[DescriptionTyped (str ''a sofa''), FormSubmitted,
       GenerationSettled (TextParsed (JObj
         [(str ''inventory'', JArr []), (str ''transcript'', JStr (str ''A sofa.'')),
          (str ''totalEstimatedSize'', JStr (str ''50 cu ft''))]))]"
  let ?err = "\<lparr> description = str ''a sofa'', view = ERROR, activeInventory = None,
                   savedInventories = [], error = Some (str ''failed''),
                   fileName = Some (str ''room.mp4''), isProcessingVideo = False,
                   localStorage = None \<rparr>"
  let ?cap = "\<lparr> description = str ''a sofa'', view = CAPTURING_VIDEO, activeInventory = None,
             savedInventories = [], error = Some (str ''failed''), fileName = None,
             isProcessingVideo = False, localStorage = None \<rparr>"
  have u: "ensureUnits (str ''50 cu ft'') = str ''50 cu ft''"
    by (simp add: ensureUnits_eval)
  have n: "trim (str ''a sofa'') \<noteq> []" "str ''A sofa.'' \<noteq> []" "str ''50 cu ft'' \<noteq> []"
    by (simp_all add: str_def trim_def is_space_def)
  have a: "activeInventory (run (mounted None) ?evs) \<noteq> None"
    using u n by (simp add: run_eval str_def)
  have v: "view ?err \<noteq> IDLE \<and> view ?err \<noteq> CAPTURING_VIDEO
           \<and> view (step ?err TryAgainClicked) = IDLE"
    by (simp add: handleResetToIdle_def)
  have c: "view ?cap = CAPTURING_VIDEO"
    by simp
  from active_inventory_and_resets [of None ?evs ?err TryAgainClicked "str ''capture.webm''"]
  have 1: "view (run (mounted None) ?evs) = SUCCESS
           \<or> view (run (mounted None) ?evs) = LIST_INVENTORIES"
    and 2: "activeInventory (step ?err TryAgainClicked) = None
            \<and> error (step ?err TryAgainClicked) = None
            \<and> App.description (step ?err TryAgainClicked) = []
            \<and> fileName (step ?err TryAgainClicked) = None"
    using a v by blast+
  from active_inventory_and_resets [of None "[]" ?cap TryAgainClicked "str ''capture.webm''"]
  have 3: "step ?cap CaptureCancelled = ?cap\<lparr> view := IDLE \<rparr>"
    and 4: "step ?cap (CaptureCompleted (str ''capture.webm''))
        = ?cap\<lparr> view := IDLE, fileName := Some (str ''capture.webm''),
                 isProcessingVideo := True, error := None, description := [] \<rparr>"
    using c by blast+
  have 5: "view (run (mounted None) ?evs) \<noteq> LIST_INVENTORIES"
    using u n by (simp add: run_eval str_def)
  from a 1 2 3 4 5 v show ?thesis
    by simp
qed

text \<open>
  The claim as written fails after a save from the result view, where the list view is shown
  with \<open>activeInventory\<close> still set, and on cancelling a capture, which returns to the idle
  view with the typed description kept.
\<close>

theorem save_keeps_active_counterexample:
  "view (run (mounted None)
      [DescriptionTyped (str ''a sofa''), FormSubmitted,
       GenerationSettled (TextParsed (JObj
         [(str ''inventory'', JArr []), (str ''transcript'', JStr (str ''A sofa.'')),
          (str ''totalEstimatedSize'', JStr (str ''50 cu ft''))])),
       SaveClicked \<lparr> inventory = [], transcript = str ''A sofa.'',
                     totalEstimatedSize = str ''50 cu ft'' \<rparr> 1000 1000 True])
     = LIST_INVENTORIES
   \<and> activeInventory (run (mounted None)
      [DescriptionTyped (str ''a sofa''), FormSubmitted,
       GenerationSettled (TextParsed (JObj
         [(str ''inventory'', JArr []), (str ''transcript'', JStr (str ''A sofa.'')),
          (str ''totalEstimatedSize'', JStr (str ''50 cu ft''))])),
       SaveClicked \<lparr> inventory = [], transcript = str ''A sofa.'',
                     totalEstimatedSize = str ''50 cu ft'' \<rparr> 1000 1000 True])
     = Some (Generated
               [(str ''inventory'', JArr []), (str ''transcript'', JStr (str ''A sofa.'')),
                (str ''totalEstimatedSize'', JStr (str ''50 cu ft''))])
   \<and> view (run (mounted None)
      [DescriptionTyped (str ''a sofa''), UseCameraClicked, CaptureCancelled]) = IDLE
   \<and> App.description (run (mounted None)
      [DescriptionTyped (str ''a sofa''), UseCameraClicked, CaptureCancelled]) = str ''a sofa''"
proof -
  have u: "ensureUnits (str ''50 cu ft'') = str ''50 cu ft''"
    by (simp add: ensureUnits_eval)
  have n: "trim (str ''a sofa'') \<noteq> []" "str ''A sofa.'' \<noteq> []" "str ''50 cu ft'' \<noteq> []"
    by (simp_all add: str_def trim_def is_space_def)
  show ?thesis
    using u n by (simp add: run_eval str_def)
qed





section \<open>The inventory store: reading, saving and deleting\<close>

lemma newest_first_sorted:
  "sorted (map (\<lambda>a. - createdAt a) (newest_first inventories))"
  by (simp add: newest_first_def)

lemma newest_first_fixed:
  "sorted (map (\<lambda>a. - createdAt a) inventories) \<Longrightarrow> newest_first inventories = inventories"
  by (simp add: newest_first_def sort_key_id_if_sorted)

lemma list_sorted: "sorted (map (\<lambda>a. - createdAt a) (fst (getSavedInventories st)))"
  by (auto simp: getSavedInventories_def newest_first_sorted
           split: option.splits StoredText.splits)

lemma list_again:
  "fst (getSavedInventories (snd (getSavedInventories st))) = fst (getSavedInventories st)"
  by (auto simp: getSavedInventories_def split: option.splits StoredText.splits)

lemma list_after_delete:
  "fst (getSavedInventories (deleteInventoryById i writable st)) =
     (if writable then filter (\<lambda>saved. id' saved \<noteq> i) (fst (getSavedInventories st))
      else fst (getSavedInventories st))"
proof (cases writable)
  case True
  have "sorted (map (\<lambda>a. - createdAt a)
          (filter (\<lambda>saved. id' saved \<noteq> i) (fst (getSavedInventories st))))"
    using list_sorted by (rule sorted_filter)
  then show ?thesis
    using True
    by (simp add: deleteInventoryById_def getSavedInventories_def [of "Some _"]
          newest_first_fixed case_prod_beta)
next
  case False
  then show ?thesis
    using list_again [of st]
    by (simp add: deleteInventoryById_def case_prod_beta)
qed

lemma delete_absent_id:
  assumes "i \<notin> id' ` set (fst (getSavedInventories st))"
  shows "fst (getSavedInventories (deleteInventoryById i writable st))
         = fst (getSavedInventories st)"
proof -
  from assms have "filter (\<lambda>saved. id' saved \<noteq> i) (fst (getSavedInventories st))
                   = fst (getSavedInventories st)"
    by (intro filter_True) auto
  then show ?thesis
    by (simp add: list_after_delete)
qed

lemma list_after_save:
  assumes "\<forall>old \<in> set (fst (getSavedInventories st)). createdAt old \<le> t_created"
  shows "saveInventory x t_id t_created True st = (Inr saved, st') \<Longrightarrow>
         fst (getSavedInventories st') = saved # fst (getSavedInventories st)"
proof -
  assume s: "saveInventory x t_id t_created True st = (Inr saved, st')"
  then have st': "st' = Some (Encoded (saved # fst (getSavedInventories st)))"
    and c: "createdAt saved = t_created"
    by (auto simp: saveInventory_def Let_def case_prod_beta)
  have "newest_first (saved # fst (getSavedInventories st))
        = insort_key (\<lambda>a. - createdAt a) saved (newest_first (fst (getSavedInventories st)))"
    by (simp add: newest_first_def)
  also have "newest_first (fst (getSavedInventories st)) = fst (getSavedInventories st)"
    using list_sorted by (rule newest_first_fixed)
  also have "insort_key (\<lambda>a. - createdAt a) saved (fst (getSavedInventories st))
             = saved # fst (getSavedInventories st)"
    using assms c by (intro insort_is_Cons) auto
  finally show ?thesis
    by (simp add: st' getSavedInventories_def)
qed


lemma list_of_encoded:
  "getSavedInventories (Some (Encoded inventories))
   = (newest_first inventories, Some (Encoded inventories))"
  by (simp add: getSavedInventories_def)

lemma round_trip_without_collision:
  assumes "saveInventory x t_id t_created True st = (Inr saved, st')"
    and "id' saved \<notin> id' ` set (fst (getSavedInventories st))"
  shows "fst (getSavedInventories (deleteInventoryById (id' saved) True st'))
         = fst (getSavedInventories st)"
proof -
  let ?all = "fst (getSavedInventories st)"
  let ?keep = "\<lambda>r. id' r \<noteq> id' saved"
  from assms(1) have st': "st' = Some (Encoded (saved # ?all))"
    by (auto simp: saveInventory_def Let_def case_prod_beta)
  from assms(2) have "\<forall>r \<in> set ?all. id' r \<noteq> id' saved"
    by (metis imageI)
  then have keep: "filter ?keep ?all = ?all"
    by (intro filter_True) simp
  have "fst (getSavedInventories (deleteInventoryById (id' saved) True st'))
        = filter ?keep (newest_first (saved # ?all))"
    by (simp add: list_after_delete st' list_of_encoded)
  also have "\<dots> = newest_first (filter ?keep (saved # ?all))"
    by (simp only: newest_first_def filter_sort)
  also have "\<dots> = newest_first ?all"
    by (simp add: keep)
  also have "\<dots> = ?all"
    using list_sorted by (rule newest_first_fixed)
  finally show ?thesis .
qed

lemmas store_eval =
  saveInventory_def getSavedInventories_def deleteInventoryById_def newest_first_def
  decimal_def decimal_nat.simps Let_def str_def

text \<open>
  C9 (amended). When the persisted text cannot be read, \<open>getSavedInventories\<close> returns
  the empty list, and a later read returns the empty list again; nothing is thrown. A
  non-empty unreadable text is removed from the storage; the empty text is left in place.
\<close>

theorem unreadable_store_reads_empty:
  "getSavedInventories (Some (Unreadable savedData))
     = ([], if savedData = [] then Some (Unreadable savedData) else None)
   \<and> fst (getSavedInventories (snd (getSavedInventories (Some (Unreadable savedData))))) = []"
  by (simp add: getSavedInventories_def)

theorem unreadable_store_reads_empty_witness:
  "getSavedInventories (Some (Unreadable (str ''[{oops''))) = ([], None)
   \<and> fst (getSavedInventories (snd (getSavedInventories (Some (Unreadable (str ''[{oops'')))))) = []"
proof -
  have "str ''[{oops'' \<noteq> []"
    by (simp add: str_def)
  with unreadable_store_reads_empty [of "str ''[{oops''", THEN conjunct1]
  have "getSavedInventories (Some (Unreadable (str ''[{oops''))) = ([], None)"
    by simp
  then show ?thesis
    using unreadable_store_reads_empty [of "str ''[{oops''", THEN conjunct2] by (rule conjI)
qed

text \<open>
  The claim as written fails on the empty text: it cannot be parsed, it is read as an
  empty store, and the entry is not removed.
\<close>

theorem empty_text_kept_counterexample:
  "getSavedInventories (Some (Unreadable [])) = ([], Some (Unreadable []))
   \<and> snd (getSavedInventories (Some (Unreadable []))) \<noteq> None"
  by (simp add: getSavedInventories_def)

text \<open>
  C3. The id of a saved record is \<open>inv_\<close> followed by the clock reading in
  milliseconds, so it is not fresh when the clock reads the same twice: two inventories saved
  within one millisecond get the same id, and the list then holds two records with that id.
\<close>

theorem same_millisecond_ids_collide:
  "saveInventory \<lparr> inventory = [], transcript = str ''A sofa.'',
                   totalEstimatedSize = str ''50 cu ft'' \<rparr>
       1700000000000 1700000000000 True None
     = (Inr \<lparr> inventory = [], transcript = str ''A sofa.'',
              totalEstimatedSize = str ''50 cu ft'',
              id' = str ''inv_1700000000000'', createdAt = 1700000000000 \<rparr>,
        Some (Encoded [\<lparr> inventory = [], transcript = str ''A sofa.'',
              totalEstimatedSize = str ''50 cu ft'',
              id' = str ''inv_1700000000000'', createdAt = 1700000000000 \<rparr>]))
   \<and> saveInventory \<lparr> inventory = [], transcript = str ''A bed.'',
                   totalEstimatedSize = str ''70 cu ft'' \<rparr>
       1700000000000 1700000000000 True
       (Some (Encoded [\<lparr> inventory = [], transcript = str ''A sofa.'',
              totalEstimatedSize = str ''50 cu ft'',
              id' = str ''inv_1700000000000'', createdAt = 1700000000000 \<rparr>]))
     = (Inr \<lparr> inventory = [], transcript = str ''A bed.'',
              totalEstimatedSize = str ''70 cu ft'',
              id' = str ''inv_1700000000000'', createdAt = 1700000000000 \<rparr>,
        Some (Encoded [\<lparr> inventory = [], transcript = str ''A bed.'',
              totalEstimatedSize = str ''70 cu ft'',
              id' = str ''inv_1700000000000'', createdAt = 1700000000000 \<rparr>,
            \<lparr> inventory = [], transcript = str ''A sofa.'',
              totalEstimatedSize = str ''50 cu ft'',
              id' = str ''inv_1700000000000'', createdAt = 1700000000000 \<rparr>]))
   \<and> map id' (fst (getSavedInventories
        (Some (Encoded [\<lparr> inventory = [], transcript = str ''A bed.'',
              totalEstimatedSize = str ''70 cu ft'',
              id' = str ''inv_1700000000000'', createdAt = 1700000000000 \<rparr>,
            \<lparr> inventory = [], transcript = str ''A sofa.'',
              totalEstimatedSize = str ''50 cu ft'',
              id' = str ''inv_1700000000000'', createdAt = 1700000000000 \<rparr>]))))
     = [str ''inv_1700000000000'', str ''inv_1700000000000'']"
  by (simp add: store_eval)

text \<open>
  C8. The round trip of a save and the deletion of the returned id does not restore the list
  when a stored record already carries that id (a record saved within the same
  millisecond): the deletion removes both. The deletion of an id that no stored record
  carries leaves the list as it is (\<open>delete_absent_id\<close>), and the round trip restores
  the list when the returned id is new to the store (\<open>round_trip_without_collision\<close>).
\<close>

theorem round_trip_loses_older_record:
  "fst (getSavedInventories
        (Some (Encoded [\<lparr> inventory = [], transcript = str ''A sofa.'',
              totalEstimatedSize = str ''50 cu ft'',
              id' = str ''inv_1700000000000'', createdAt = 1700000000000 \<rparr>])))
     = [\<lparr> inventory = [], transcript = str ''A sofa.'',
              totalEstimatedSize = str ''50 cu ft'',
              id' = str ''inv_1700000000000'', createdAt = 1700000000000 \<rparr>]
   \<and> fst (saveInventory \<lparr> inventory = [], transcript = str ''A bed.'',
                   totalEstimatedSize = str ''70 cu ft'' \<rparr>
       1700000000000 1700000000000 True
       (Some (Encoded [\<lparr> inventory = [], transcript = str ''A sofa.'',
              totalEstimatedSize = str ''50 cu ft'',
              id' = str ''inv_1700000000000'', createdAt = 1700000000000 \<rparr>])))
     = Inr \<lparr> inventory = [], transcript = str ''A bed.'',
              totalEstimatedSize = str ''70 cu ft'',
              id' = str ''inv_1700000000000'', createdAt = 1700000000000 \<rparr>
   \<and> fst (getSavedInventories
        (deleteInventoryById (str ''inv_1700000000000'') True
          (snd (saveInventory \<lparr> inventory = [], transcript = str ''A bed.'',
                   totalEstimatedSize = str ''70 cu ft'' \<rparr>
             1700000000000 1700000000000 True
             (Some (Encoded [\<lparr> inventory = [], transcript = str ''A sofa.'',
                totalEstimatedSize = str ''50 cu ft'',
                id' = str ''inv_1700000000000'', createdAt = 1700000000000 \<rparr>]))))))
     = []"
  by (simp add: store_eval)

end
